theory Spec2Isabelle
  imports Complex_Main
begin

section \<open>Python values used by the script\<close>

text \<open>
  The exceptions the script can meet. \<open>RateLimitError\<close> is the class the script
  declares; \<open>ProviderException\<close> is any other exception raised by the
  \<open>googlemaps\<close> client, carrying its \<open>str(e)\<close>; \<open>KeyError\<close> and
  \<open>ValueError\<close> are raised by pandas (its parser errors are \<open>ValueError\<close>s),
  \<open>OSError\<close> by the file system.
\<close>

datatype key = IntKey nat | StrKey string

datatype error =
    KeyError key
  | ValueError string
  | RateLimitError string
  | ProviderException string
  | OSError string

text \<open>\<open>str(e)\<close>: a \<open>KeyError\<close> prints the repr of its key, the others their message.\<close>

fun digit :: "nat \<Rightarrow> char" where
  "digit n = char_of (48 + n)"

fun str_nat :: "nat \<Rightarrow> string" where
  "str_nat n = (if n < 10 then [digit n] else str_nat (n div 10) @ [digit (n mod 10)])"

fun str_error :: "error \<Rightarrow> string" where
  "str_error (KeyError (IntKey n)) = str_nat n"
| "str_error (KeyError (StrKey k)) = [CHR 0x27] @ k @ [CHR 0x27]"
| "str_error (ValueError m) = m"
| "str_error (RateLimitError m) = m"
| "str_error (ProviderException m) = m"
| "str_error (OSError m) = m"

text \<open>
  A spreadsheet cell as pandas hands it over: \<open>NaN\<close> for a blank cell, otherwise a value
  represented by the text Python's \<open>str()\<close> gives for it (\<open>12345.0\<close> for the float
  12345.0, \<open>Gesamt\<close> for the string).
\<close>

datatype cell = NaN | Val string

fun isna :: "cell \<Rightarrow> bool" where
  "isna NaN = True"
| "isna (Val s) = False"

fun str :: "cell \<Rightarrow> string" where
  "str NaN = ''nan''"
| "str (Val s) = s"

text \<open>
  \<open>str.strip()\<close> removes leading and trailing whitespace. Characters are code points
  below 256; \<open>isspace\<close> lists the ones Python counts as whitespace there.
\<close>

definition isspace :: "char \<Rightarrow> bool" where
  "isspace c = ((of_char c :: nat) \<in> {9, 10, 11, 12, 13, 28, 29, 30, 31, 32, 133, 160})"

definition strip :: "string \<Rightarrow> string" where
  "strip s = rev (dropWhile isspace (rev (dropWhile isspace s)))"

text \<open>\<open>s.split(".")[0]\<close>: the text before the first dot, all of \<open>s\<close> when it has none.\<close>

definition split_dot_0 :: "string \<Rightarrow> string" where
  "split_dot_0 s = takeWhile (\<lambda>c. c \<noteq> CHR ''.'') s"

text \<open>
  \<open>row[i]\<close> on a row of a frame read with \<open>header=None\<close>: the columns are labelled
  \<open>0 .. n-1\<close>, and a label that is not there raises \<open>KeyError\<close>.
\<close>

definition row_get :: "cell list \<Rightarrow> nat \<Rightarrow> error + cell" where
  "row_get row i = (if i < length row then Inr (row ! i) else Inl (KeyError (IntKey i)))"

subsection \<open>The Address Extractor: \<open>parse_sheet\<close>\<close>

record address_record =
  dm_code :: string
  Strasse :: string
  PLZ :: string
  Ort :: string
  Country :: string
  address_for_geocoding :: string

text \<open>
  One pass of the body of the \<open>for\<close> loop: \<open>Inr None\<close> is \<open>continue\<close>,
  \<open>Inr (Some r)\<close> is the dictionary appended to \<open>rows\<close>, \<open>Inl e\<close> is an
  exception leaving the function.
\<close>

definition parse_row :: "string \<Rightarrow> cell list \<Rightarrow> error + address_record option" where
  "parse_row country_label row =
     (case row_get row 0 of
        Inl e \<Rightarrow> Inl e
      | Inr first \<Rightarrow>
          if isna first \<or> strip (str first) \<in> set [''dm-Markt'', ''Gesamt''] then Inr None
          else
            (case row_get row 3 of
               Inl e \<Rightarrow> Inl e
             | Inr street \<Rightarrow>
                 if isna street \<or> strip (str street) = ''Strasse'' then Inr None
                 else
                   (case row_get row 4 of
                      Inl e \<Rightarrow> Inl e
                    | Inr c4 \<Rightarrow>
                        (case row_get row 5 of
                           Inl e \<Rightarrow> Inl e
                         | Inr c5 \<Rightarrow>
                             (let plz = (if \<not> isna c4 then split_dot_0 (str c4) else []);
                                  city = (if \<not> isna c5 then str c5 else []);
                                  code = strip (str first);
                                  street_str = strip (str street);
                                  addr = street_str @ '', '' @ plz @ '' '' @ city @ '', ''
                                           @ country_label
                              in Inr (Some \<lparr>dm_code = code, Strasse = street_str, PLZ = plz,
                                     Ort = city, Country = country_label,
                                     address_for_geocoding = addr\<rparr>))))))"

fun parse_rows ::
  "string \<Rightarrow> cell list list \<Rightarrow> address_record list \<Rightarrow> error + address_record list" where
  "parse_rows country_label [] rows = Inr rows"
| "parse_rows country_label (row # df) rows =
     (case parse_row country_label row of
        Inl e \<Rightarrow> Inl e
      | Inr None \<Rightarrow> parse_rows country_label df rows
      | Inr (Some r) \<Rightarrow> parse_rows country_label df (rows @ [r]))"

text \<open>
  A workbook maps a sheet name to its rows; \<open>pd.read_excel\<close> raises \<open>ValueError\<close>
  for a sheet that is not in the file.
\<close>

type_synonym workbook = "string \<rightharpoonup> cell list list"

definition read_excel :: "workbook \<Rightarrow> string \<Rightarrow> error + cell list list" where
  "read_excel xlsx sheet_name =
     (case xlsx sheet_name of
        None \<Rightarrow> Inl (ValueError sheet_name)
      | Some df \<Rightarrow> Inr df)"

definition parse_sheet :: "workbook \<Rightarrow> string \<Rightarrow> string \<Rightarrow> error + address_record list" where
  "parse_sheet xlsx sheet_name country_label =
     (case read_excel xlsx sheet_name of
        Inl e \<Rightarrow> Inl e
      | Inr df \<Rightarrow> parse_rows country_label df [])"

subsection \<open>The Lookup Cache: \<open>load_or_create_cache\<close> and \<open>save_cache\<close>\<close>

text \<open>
  A row of the cache frame. A missing number or identifier (\<open>None\<close>, or \<open>NaN\<close> once it
  has been through the CSV file) is \<open>None\<close>.
\<close>

record cache_entry =
  c_address :: string
  latitude :: "real option"
  longitude :: "real option"
  place_id :: "string option"
  geocode_status :: string

text \<open>
  What is at \<open>cache_path\<close>: nothing, a file \<open>pd.read_csv\<close> raises on, or a file it
  reads into a frame with the cache's five columns. \<open>Unwritable f\<close> is a path in state
  \<open>f\<close> that cannot be written (a directory, a read-only file, a read-only directory);
  \<open>Inaccessible\<close> is a path on which the existence test itself raises \<open>OSError\<close>
  (a name that is too long, a directory that may not be searched).
\<close>

datatype cache_file =
    Absent
  | Unreadable
  | Csv "cache_entry list"
  | Unwritable cache_file
  | Inaccessible

text \<open>\<open>cache_path.exists()\<close>.\<close>

fun exists_file :: "cache_file \<Rightarrow> error + bool" where
  "exists_file Absent = Inr False"
| "exists_file Unreadable = Inr True"
| "exists_file (Csv rows) = Inr True"
| "exists_file (Unwritable f) = exists_file f"
| "exists_file Inaccessible = Inl (OSError ''File name too long'')"

fun read_csv :: "cache_file \<Rightarrow> error + cache_entry list" where
  "read_csv (Csv rows) = Inr rows"
| "read_csv Unreadable = Inl (ValueError ''Error tokenizing data'')"
| "read_csv Absent = Inl (OSError ''No such file or directory'')"
| "read_csv (Unwritable f) = read_csv f"
| "read_csv Inaccessible = Inl (OSError ''File name too long'')"

text \<open>
  The existence test stands outside the \<open>try\<close>: what it raises leaves the function. What
  \<open>pd.read_csv\<close> raises is caught, and the function goes on to return the empty frame.
\<close>

definition load_or_create_cache :: "cache_file \<Rightarrow> error + cache_entry list" where
  "load_or_create_cache cache_path =
     (case exists_file cache_path of
        Inl e \<Rightarrow> Inl e
      | Inr True \<Rightarrow>
          (case read_csv cache_path of
             Inr df \<Rightarrow> Inr df
           | Inl e \<Rightarrow> Inr [])
      | Inr False \<Rightarrow> Inr [])"

text \<open>\<open>drop_duplicates(subset=["address_for_geocoding"], keep="last")\<close>.\<close>

fun drop_duplicates_last :: "cache_entry list \<Rightarrow> cache_entry list" where
  "drop_duplicates_last [] = []"
| "drop_duplicates_last (e # es) =
     (if c_address e \<in> set (map c_address es) then drop_duplicates_last es
      else e # drop_duplicates_last es)"

text \<open>
  \<open>DataFrame.to_csv(cache_path, index=False)\<close>: the file is rewritten as a whole, or
  \<open>OSError\<close> is raised and the path is left as it was.
\<close>

fun writable :: "cache_file \<Rightarrow> bool" where
  "writable (Unwritable f) = False"
| "writable Inaccessible = False"
| "writable f = True"

definition to_csv :: "cache_entry list \<Rightarrow> cache_file \<Rightarrow> error + cache_file" where
  "to_csv df cache_path =
     (if writable cache_path then Inr (Csv df) else Inl (OSError ''Permission denied''))"

text \<open>\<open>save_cache\<close> returns the new state of the file at \<open>cache_path\<close>, or raises.\<close>

definition save_cache :: "cache_entry list \<Rightarrow> cache_file \<Rightarrow> error + cache_file" where
  "save_cache cache_df cache_path = to_csv (drop_duplicates_last cache_df) cache_path"

text \<open>
  \<open>combined.merge(cache_df, on="address_for_geocoding", how="left")\<close>: every left row, in
  order, once with each cache row of the same key, or once with no cache row when there is
  none. A frame built from an empty list of dictionaries has no columns, and merging it on
  the key raises \<open>KeyError\<close>.
\<close>

type_synonym merged_row = "address_record \<times> cache_entry option"

definition merge_row :: "cache_entry list \<Rightarrow> address_record \<Rightarrow> merged_row list" where
  "merge_row cache_df r =
     (case filter (\<lambda>e. c_address e = address_for_geocoding r) cache_df of
        [] \<Rightarrow> [(r, None)]
      | es \<Rightarrow> map (\<lambda>e. (r, Some e)) es)"

definition merge_left :: "address_record list \<Rightarrow> cache_entry list \<Rightarrow> error + merged_row list" where
  "merge_left combined cache_df =
     (if combined = [] then Inl (KeyError (StrKey ''address_for_geocoding''))
      else Inr (concat (map (merge_row cache_df) combined)))"

text \<open>\<open>merged["latitude"].isna()\<close> on one row of the merge.\<close>

fun latitude_isna :: "merged_row \<Rightarrow> bool" where
  "latitude_isna (r, None) = True"
| "latitude_isna (r, Some e) = (latitude e = None)"

subsection \<open>The Geocode Client Adapter: \<open>geocode_one\<close>\<close>

text \<open>
  One result of the provider: \<open>best["geometry"]["location"]\<close> with its optional \<open>lat\<close>
  and \<open>lng\<close>, and the optional \<open>place_id\<close> and \<open>formatted_address\<close>. Every result
  of the Geocoding API carries a geometry with a location.
\<close>

record gmaps_result =
  lat :: "real option"
  lng :: "real option"
  r_place_id :: "string option"
  r_formatted_address :: "string option"

text \<open>What \<open>gmaps_client.geocode\<close> does: return a list of results, or raise with a message.\<close>

datatype response = Returns "gmaps_result list" | Raises string

text \<open>
  The provider is outside the program. It is a transition function on a state of its
  own: it may answer the same address differently from one call to the next.
\<close>

type_synonym 'p provider = "'p \<Rightarrow> string \<Rightarrow> response \<times> 'p"

record geocode_data =
  g_latitude :: "real option"
  g_longitude :: "real option"
  g_place_id :: "string option"
  g_formatted_address :: "string option"

text \<open>Python's \<open>needle in hay\<close> on strings.\<close>

fun contains :: "string \<Rightarrow> string \<Rightarrow> bool" where
  "contains needle [] = (needle = [])"
| "contains needle (c # cs) =
     (take (length needle) (c # cs) = needle \<or> contains needle cs)"

text \<open>The body of \<open>geocode_one\<close>, without its decorator, on the provider's answer.\<close>

definition geocode_body :: "response \<Rightarrow> error + geocode_data option" where
  "geocode_body resp =
     (case resp of
        Raises msg \<Rightarrow>
          if contains ''OVER_QUERY_LIMIT'' msg \<or> contains ''OVER_DAILY_LIMIT'' msg
          then Inl (RateLimitError msg)
          else Inl (ProviderException msg)
      | Returns results \<Rightarrow>
          (case results of
             [] \<Rightarrow> Inr None
           | best # _ \<Rightarrow>
               Inr (Some \<lparr>g_latitude = lat best, g_longitude = lng best,
                          g_place_id = r_place_id best,
                          g_formatted_address = r_formatted_address best\<rparr>)))"

text \<open>
  What the run does that an observer outside can see, in order: a call of the provider, a
  backoff wait of the retry policy, the pause between two addresses.
\<close>

datatype event = Geocode string | Backoff nat | Sleep

record 'p world =
  pstate :: 'p
  trace :: "event list"

text \<open>
  \<open>wait_exponential(multiplier, min, max)\<close> after the attempt numbered
  \<open>attempt_number\<close> (the first is 1):
  \<open>max(max(0, min), min(multiplier * 2 ** (attempt_number - 1), max))\<close>.
\<close>

definition wait_exponential :: "nat \<Rightarrow> nat \<Rightarrow> nat \<Rightarrow> nat \<Rightarrow> nat" where
  "wait_exponential multiplier mn mx attempt_number =
     max (max 0 mn) (min (multiplier * 2 ^ (attempt_number - 1)) mx)"

text \<open>\<open>stop_after_attempt(n)\<close> and \<open>retry_if_exception_type((RateLimitError,))\<close>.\<close>

definition stop_after_attempt :: "nat \<Rightarrow> nat \<Rightarrow> bool" where
  "stop_after_attempt max_attempt_number attempt_number = (attempt_number \<ge> max_attempt_number)"

fun retry_if_rate_limit :: "error + 'a \<Rightarrow> bool" where
  "retry_if_rate_limit (Inl (RateLimitError m)) = True"
| "retry_if_rate_limit r = False"

text \<open>
  The decorated function. Each attempt calls the provider once. An attempt that raises
  \<open>RateLimitError\<close> is followed by a wait and another attempt unless the stop condition
  holds, in which case the exception is raised to the caller (\<open>reraise=True\<close>). Any other
  outcome of an attempt is the outcome of the call.
\<close>

function geocode_retry ::
  "'p provider \<Rightarrow> string \<Rightarrow> nat \<Rightarrow> 'p world \<Rightarrow> (error + geocode_data option) \<times> 'p world" where
  "geocode_retry gmaps address attempt_number w =
     (let answer = gmaps (pstate w) address;
          w1 = \<lparr>pstate = snd answer, trace = trace w @ [Geocode address]\<rparr>;
          outcome = geocode_body (fst answer)
      in if retry_if_rate_limit outcome \<and> \<not> stop_after_attempt 6 attempt_number
         then geocode_retry gmaps address (attempt_number + 1)
                (w1\<lparr>trace := trace w1 @ [Backoff (wait_exponential 1 2 60 attempt_number)]\<rparr>)
         else (outcome, w1))"
  by pat_completeness auto
termination
  by (relation "measure (\<lambda>(gmaps, address, attempt_number, w). 6 - attempt_number)")
     (auto simp: stop_after_attempt_def)

definition geocode_one ::
  "'p provider \<Rightarrow> string \<Rightarrow> 'p world \<Rightarrow> (error + geocode_data option) \<times> 'p world" where
  "geocode_one gmaps address w = geocode_retry gmaps address 1 w"

subsection \<open>The Batch Driver: \<open>main\<close>\<close>

text \<open>The three dictionaries the loop appends to \<open>results\<close>.\<close>

definition not_found_entry :: "string \<Rightarrow> cache_entry" where
  "not_found_entry addr =
     \<lparr>c_address = addr, latitude = None, longitude = None, place_id = None,
      geocode_status = ''NOT_FOUND''\<rparr>"

definition ok_entry :: "string \<Rightarrow> geocode_data \<Rightarrow> cache_entry" where
  "ok_entry addr data =
     \<lparr>c_address = addr, latitude = g_latitude data, longitude = g_longitude data,
      place_id = g_place_id data, geocode_status = ''OK''\<rparr>"

definition error_entry :: "string \<Rightarrow> error \<Rightarrow> cache_entry" where
  "error_entry addr e =
     \<lparr>c_address = addr, latitude = None, longitude = None, place_id = None,
      geocode_status = ''ERROR: '' @ str_error e\<rparr>"

definition sleep :: "'p world \<Rightarrow> 'p world" where
  "sleep w = w\<lparr>trace := trace w @ [Sleep]\<rparr>"

text \<open>
  The loop over \<open>to_fetch\<close>. It ends either past the last address, or inside the
  \<open>except RateLimitError\<close> branch, which leaves the program.
\<close>

datatype loop_end = Completed "cache_entry list" | RateLimited "cache_entry list"

fun fetch_loop ::
  "'p provider \<Rightarrow> string list \<Rightarrow> cache_entry list \<Rightarrow> 'p world \<Rightarrow> loop_end \<times> 'p world" where
  "fetch_loop gmaps [] results w = (Completed results, w)"
| "fetch_loop gmaps (addr # to_fetch) results w =
     (case geocode_one gmaps addr w of
        (Inr None, w') \<Rightarrow>
          fetch_loop gmaps to_fetch (results @ [not_found_entry addr]) (sleep w')
      | (Inr (Some data), w') \<Rightarrow>
          fetch_loop gmaps to_fetch (results @ [ok_entry addr data]) (sleep w')
      | (Inl (RateLimitError m), w') \<Rightarrow> (RateLimited results, w')
      | (Inl e, w') \<Rightarrow>
          fetch_loop gmaps to_fetch (results @ [error_entry addr e]) (sleep w'))"

text \<open>
  How the process ends: \<open>Exit n\<close> is \<open>sys.exit(n)\<close>, or \<open>n = 0\<close> when \<open>main\<close>
  returns; \<open>Traceback e\<close> is an exception nothing catches.
\<close>

datatype ending = Exit nat | Traceback error

record 'p run =
  ending :: ending
  cache_on_disk :: cache_file
  final_de :: "merged_row list option"
  final_at :: "merged_row list option"
  after :: "'p world"

definition to_fetch_of :: "merged_row list \<Rightarrow> string list" where
  "to_fetch_of merged = map (\<lambda>row. address_for_geocoding (fst row)) (filter latitude_isna merged)"

text \<open>
  \<open>main\<close>, from the environment variable, the workbook at \<open>--input\<close>, the file at
  \<open>--cache\<close>, the provider and its state. The two sheets of the output file are
  \<open>final_de\<close> and \<open>final_at\<close>; renaming the columns changes labels only. An
  exception raised while the cache is loaded or saved is caught nowhere and ends the
  process. The constructor of the client, the pause of \<open>--sleep\<close> seconds and the
  writing of the output file are taken to succeed.
\<close>

definition main ::
  "string option \<Rightarrow> workbook \<Rightarrow> cache_file \<Rightarrow> 'p provider \<Rightarrow> 'p \<Rightarrow> 'p run" where
  "main api_key xlsx cache_path gmaps p0 =
     (let w0 = \<lparr>pstate = p0, trace = []\<rparr>;
          stop = (\<lambda>e w. \<lparr>ending = e, cache_on_disk = cache_path, final_de = None,
                          final_at = None, after = w\<rparr>)
      in
      if api_key = None \<or> api_key = Some [] then stop (Exit 2) w0
      else
        (case parse_sheet xlsx ''dm DE'' ''Germany'' of
           Inl e \<Rightarrow> stop (Traceback e) w0
         | Inr de_df \<Rightarrow>
        (case parse_sheet xlsx ''dm AT'' ''Austria'' of
           Inl e \<Rightarrow> stop (Traceback e) w0
         | Inr at_df \<Rightarrow>
        (let combined = de_df @ at_df in
         case load_or_create_cache cache_path of
           Inl e \<Rightarrow> stop (Traceback e) w0
         | Inr cache_df \<Rightarrow>
        (case merge_left combined cache_df of
           Inl e \<Rightarrow> stop (Traceback e) w0
         | Inr merged \<Rightarrow>
        (case fetch_loop gmaps (to_fetch_of merged) [] w0 of
           (RateLimited results, w) \<Rightarrow>
             (case (if results \<noteq> [] then save_cache (cache_df @ results) cache_path
                    else Inr cache_path) of
                Inl e \<Rightarrow> stop (Traceback e) w
              | Inr disk \<Rightarrow> (stop (Exit 3) w)\<lparr>cache_on_disk := disk\<rparr>)
         | (Completed results, w) \<Rightarrow>
             (case (if results \<noteq> [] then save_cache (cache_df @ results) cache_path
                    else Inr cache_path) of
                Inl e \<Rightarrow> stop (Traceback e) w
              | Inr disk \<Rightarrow>
                  (let cache_df' = (if results \<noteq> [] then cache_df @ results else cache_df)
                   in
                   case merge_left combined cache_df' of
                     Inl e \<Rightarrow> (stop (Traceback e) w)\<lparr>cache_on_disk := disk\<rparr>
                   | Inr final \<Rightarrow>
                       \<lparr>ending = Exit 0, cache_on_disk = disk,
                        final_de = Some (filter (\<lambda>row. Country (fst row) = ''Germany'') final),
                        final_at = Some (filter (\<lambda>row. Country (fst row) = ''Austria'') final),
                        after = w\<rparr>))))))))"

section \<open>Notions for stating the properties\<close>

text \<open>
  A row that is blank in column 0 or whose column 0 strips to one of the two sentinel
  strings.
\<close>

fun blank_or_sentinel :: "cell list \<Rightarrow> bool" where
  "blank_or_sentinel [] = False"
| "blank_or_sentinel (first # cells) =
     (isna first \<or> strip (str first) = ''dm-Markt'' \<or> strip (str first) = ''Gesamt'')"

text \<open>The records one row contributes to the result of \<open>parse_sheet\<close>.\<close>

fun emitted :: "string \<Rightarrow> cell list \<Rightarrow> address_record list" where
  "emitted l row = (case parse_row l row of Inr (Some r) \<Rightarrow> [r] | _ \<Rightarrow> [])"

text \<open>The addresses the provider was called with, and the waits, in a trace.\<close>

fun geocode_calls :: "event list \<Rightarrow> string list" where
  "geocode_calls [] = []"
| "geocode_calls (Geocode a # ev) = a # geocode_calls ev"
| "geocode_calls (e # ev) = geocode_calls ev"

fun backoffs :: "event list \<Rightarrow> nat list" where
  "backoffs [] = []"
| "backoffs (Backoff n # ev) = n # backoffs ev"
| "backoffs (e # ev) = backoffs ev"

text \<open>The entry the loop appends for an outcome of \<open>geocode_one\<close> that lets it go on.\<close>

fun entry_for :: "string \<Rightarrow> error + geocode_data option \<Rightarrow> cache_entry" where
  "entry_for addr (Inr None) = not_found_entry addr"
| "entry_for addr (Inr (Some data)) = ok_entry addr data"
| "entry_for addr (Inl e) = error_entry addr e"

section \<open>Example inputs\<close>

text \<open>
  Two providers: one plays back a list of answers, then finds nothing; one signals the
  rate limit on every call.
\<close>

fun scripted :: "response list provider" where
  "scripted [] address = (Returns [], [])"
| "scripted (answer # script) address = (answer, script)"

definition always_limited :: "unit provider" where
  "always_limited p address = (Raises ''OVER_QUERY_LIMIT'', p)"

text \<open>Rows of a sheet, the records they give, and a workbook with the two sheets.\<close>

definition example_row :: "cell list" where
  "example_row =
     [Val ''D123 '', NaN, NaN, Val '' Hauptstr. 1'', Val ''76133.0'', Val ''Karlsruhe'']"

definition example_record :: address_record where
  "example_record =
     \<lparr>dm_code = ''D123'', Strasse = ''Hauptstr. 1'', PLZ = ''76133'', Ort = ''Karlsruhe'',
      Country = ''Germany'',
      address_for_geocoding = ''Hauptstr. 1, 76133 Karlsruhe, Germany''\<rparr>"

definition gesamt_row :: "cell list" where
  "gesamt_row = [Val ''Gesamt'', NaN, NaN, NaN, NaN, NaN]"

definition bare_row :: "cell list" where
  "bare_row = [Val ''D7'', NaN, NaN, Val ''Ring 2'', NaN, NaN]"

definition bare_record :: address_record where
  "bare_record =
     \<lparr>dm_code = ''D7'', Strasse = ''Ring 2'', PLZ = [], Ort = [], Country = ''Austria'',
      address_for_geocoding = ''Ring 2,  , Austria''\<rparr>"

definition example_workbook :: workbook where
  "example_workbook = [''dm DE'' \<mapsto> [example_row, gesamt_row], ''dm AT'' \<mapsto> [bare_row]]"

text \<open>Answers of the provider, and cache entries.\<close>

definition example_best :: gmaps_result where
  "example_best =
     \<lparr>lat = Some 49, lng = Some 8, r_place_id = Some ''ChIJ'', r_formatted_address = None\<rparr>"

definition example_script :: "response list" where
  "example_script = [Returns [example_best], Returns [], Raises ''Timeout'']"

definition limited_script :: "response list" where
  "limited_script =
     [Returns [example_best],
      Raises ''OVER_QUERY_LIMIT'', Raises ''OVER_QUERY_LIMIT'', Raises ''OVER_QUERY_LIMIT'',
      Raises ''OVER_QUERY_LIMIT'', Raises ''OVER_QUERY_LIMIT'', Raises ''OVER_QUERY_LIMIT'']"

definition example_ok_entry :: cache_entry where
  "example_ok_entry =
     \<lparr>c_address = ''Hauptstr. 1, 76133 Karlsruhe, Germany'', latitude = Some 49,
      longitude = Some 8, place_id = Some ''ChIJ'', geocode_status = ''OK''\<rparr>"

definition example_cache :: "cache_entry list" where
  "example_cache = [example_ok_entry, not_found_entry ''Ring 2,  , Austria'']"

text \<open>
  A second German row with the address of the first, an Austrian row with all its cells,
  the workbook of the three, and a row of a sheet that is four columns wide.
\<close>

definition twin_row :: "cell list" where
  "twin_row =
     [Val ''D124'', NaN, NaN, Val ''Hauptstr. 1'', Val ''76133'', Val ''Karlsruhe'']"

definition twin_record :: address_record where
  "twin_record =
     \<lparr>dm_code = ''D124'', Strasse = ''Hauptstr. 1'', PLZ = ''76133'', Ort = ''Karlsruhe'',
      Country = ''Germany'',
      address_for_geocoding = ''Hauptstr. 1, 76133 Karlsruhe, Germany''\<rparr>"

definition wien_row :: "cell list" where
  "wien_row = [Val ''A1'', NaN, NaN, Val ''Graben 1'', Val ''1010'', Val ''Wien'']"

definition wien_record :: address_record where
  "wien_record =
     \<lparr>dm_code = ''A1'', Strasse = ''Graben 1'', PLZ = ''1010'', Ort = ''Wien'',
      Country = ''Austria'', address_for_geocoding = ''Graben 1, 1010 Wien, Austria''\<rparr>"

definition twin_workbook :: workbook where
  "twin_workbook =
     [''dm DE'' \<mapsto> [example_row, twin_row, gesamt_row], ''dm AT'' \<mapsto> [wien_row]]"

definition twin_script :: "response list" where
  "twin_script =
     [Returns [example_best], Returns [],
      Raises ''OVER_QUERY_LIMIT'', Raises ''OVER_QUERY_LIMIT'', Raises ''OVER_QUERY_LIMIT'',
      Raises ''OVER_QUERY_LIMIT'', Raises ''OVER_QUERY_LIMIT'', Raises ''OVER_QUERY_LIMIT'']"

definition narrow_row :: "cell list" where
  "narrow_row = [Val ''D7'', NaN, NaN, Val ''Ring 2'']"

section \<open>The Address Extractor\<close>

lemma parse_row_skipped: "blank_or_sentinel row \<Longrightarrow> parse_row l row = Inr None"
  by (cases row) (auto simp: parse_row_def row_get_def)

lemma parse_rows_filter:
  "parse_rows l (filter (\<lambda>row. \<not> blank_or_sentinel row) df) acc = parse_rows l df acc"
  by (induction df arbitrary: acc) (auto simp: parse_row_skipped split: sum.splits option.splits)

lemma parse_rows_Inr:
  "parse_rows l df acc = Inr rows \<Longrightarrow>
     rows = acc @ concat (map (emitted l) df) \<and> (\<forall>row\<in>set df. \<forall>e. parse_row l row \<noteq> Inl e)"
proof (induction df arbitrary: acc)
  case Nil
  then show ?case by simp
next
  case (Cons row df)
  show ?case
  proof (cases "parse_row l row")
    case (Inl e)
    with Cons.prems show ?thesis by simp
  next
    case (Inr ro)
    show ?thesis
    proof (cases ro)
      case None
      with Inr Cons.prems have "parse_rows l df acc = Inr rows" by simp
      from Cons.IH[OF this] Inr None show ?thesis by simp
    next
      case (Some r)
      with Inr Cons.prems have "parse_rows l df (acc @ [r]) = Inr rows" by simp
      from Cons.IH[OF this] Inr Some show ?thesis by simp
    qed
  qed
qed

lemma parse_rows_total:
  "\<forall>row\<in>set df. \<forall>e. parse_row l row \<noteq> Inl e \<Longrightarrow>
     parse_rows l df acc = Inr (acc @ concat (map (emitted l) df))"
proof (induction df arbitrary: acc)
  case Nil
  then show ?case by simp
next
  case (Cons row df)
  then show ?case by (cases "parse_row l row") (auto split: option.splits)
qed

lemma parse_row_Some:
  assumes "parse_row l row = Inr (Some r)"
  shows "6 \<le> length row"
    and "\<not> blank_or_sentinel row"
    and "\<not> isna (row ! 3)" and "strip (str (row ! 3)) \<noteq> ''Strasse''"
    and "dm_code r = strip (str (row ! 0))"
    and "Strasse r = strip (str (row ! 3))"
    and "PLZ r = (if isna (row ! 4) then [] else split_dot_0 (str (row ! 4)))"
    and "Ort r = (if isna (row ! 5) then [] else str (row ! 5))"
    and "Country r = l"
    and "address_for_geocoding r = Strasse r @ '', '' @ PLZ r @ '' '' @ Ort r @ '', '' @ Country r"
  using assms
  by (cases row; auto simp: parse_row_def row_get_def Let_def split: if_splits sum.splits)+

lemma parse_row_None_iff:
  assumes "6 \<le> length row"
  shows "parse_row l row = Inr None \<longleftrightarrow>
           blank_or_sentinel row \<or> isna (row ! 3) \<or> strip (str (row ! 3)) = ''Strasse''"
  using assms
  by (cases row) (auto simp: parse_row_def row_get_def Let_def split: if_splits sum.splits)

lemma split_dot_0_append:
  "CHR ''.'' \<notin> set ds \<Longrightarrow> split_dot_0 (ds @ ''.'' @ fs) = ds"
  by (induction ds) (auto simp: split_dot_0_def)

lemmas extractor_eval =
  parse_sheet_def read_excel_def parse_row_def row_get_def strip_def isspace_def
  split_dot_0_def Let_def

lemma parse_example_row [simp]: "parse_row ''Germany'' example_row = Inr (Some example_record)"
  by (simp add: extractor_eval example_row_def example_record_def)

lemma parse_gesamt_row [simp]: "parse_row l gesamt_row = Inr None"
  by (rule parse_row_skipped) (simp add: gesamt_row_def strip_def isspace_def)

lemma parse_sheet_rows:
  assumes "xlsx sheet_name = Some df" and "parse_sheet xlsx sheet_name l = Inr rows"
  shows "rows = concat (map (emitted l) df)"
    and "\<forall>row\<in>set df. \<forall>e. parse_row l row \<noteq> Inl e"
  using assms parse_rows_Inr[of l df "[]" rows]
  by (simp_all add: parse_sheet_def read_excel_def)

lemma set_emitted: "r \<in> set (emitted l row) \<longleftrightarrow> parse_row l row = Inr (Some r)"
  by (auto split: sum.splits option.splits)

lemma extracted_from_row:
  assumes "xlsx sheet_name = Some df" and "parse_sheet xlsx sheet_name l = Inr rows"
  shows "r \<in> set rows \<longleftrightarrow> (\<exists>row\<in>set df. parse_row l row = Inr (Some r))"
  unfolding parse_sheet_rows(1)[OF assms]
  by (auto simp: set_emitted simp del: emitted.simps)

text \<open>
  Claim C8. Every record \<open>parse_sheet\<close> extracts has
  \<open>address_for_geocoding = "{Strasse}, {PLZ} {Ort}, {Country}"\<close>, built from that
  record's own fields, with \<open>Country\<close> the label passed in. Two extracted records, of the
  same or of different calls, that agree on street, postal code, city and country have the
  same query string. A postal-code cell whose text is \<open>ds.fs\<close>, with no dot in \<open>ds\<close>
  (a number with a trailing fraction, such as \<open>76133.0\<close>), gives the postal code \<open>ds\<close>.
\<close>

theorem C8_query_string:
  assumes "xlsx sheet_name = Some df"
    and "parse_sheet xlsx sheet_name country_label = Inr rows"
    and "parse_sheet xlsx' sheet_name' country_label' = Inr rows'"
  shows "(\<forall>r\<in>set rows.
            address_for_geocoding r =
              Strasse r @ '', '' @ PLZ r @ '' '' @ Ort r @ '', '' @ Country r \<and>
            Country r = country_label)
       \<and> (\<forall>r\<in>set rows. \<forall>r'\<in>set rows'.
            Strasse r = Strasse r' \<and> PLZ r = PLZ r' \<and> Ort r = Ort r' \<and> Country r = Country r'
            \<longrightarrow> address_for_geocoding r = address_for_geocoding r')
       \<and> (\<forall>row\<in>set df. \<forall>r ds fs.
            parse_row country_label row = Inr (Some r) \<and> row ! 4 = Val (ds @ ''.'' @ fs) \<and>
            CHR ''.'' \<notin> set ds
            \<longrightarrow> r \<in> set rows \<and> PLZ r = ds \<and>
                address_for_geocoding r =
                  Strasse r @ '', '' @ ds @ '' '' @ Ort r @ '', '' @ country_label)"
proof -
  have shape: "address_for_geocoding r =
        Strasse r @ '', '' @ PLZ r @ '' '' @ Ort r @ '', '' @ Country r \<and> Country r = l"
    if "parse_sheet x s l = Inr rs" and "r \<in> set rs" for x s l rs r
  proof -
    from that(1) obtain d where d: "x s = Some d"
      by (auto simp: parse_sheet_def read_excel_def split: option.splits)
    from that(2) extracted_from_row[OF d that(1)]
    obtain row where "parse_row l row = Inr (Some r)" by blast
    then show ?thesis using parse_row_Some(9,10) by blast
  qed
  have one: "\<forall>r\<in>set rows.
            address_for_geocoding r =
              Strasse r @ '', '' @ PLZ r @ '' '' @ Ort r @ '', '' @ Country r \<and>
            Country r = country_label"
    using shape[OF assms(2)] by blast
  have two: "\<forall>r\<in>set rows. \<forall>r'\<in>set rows'.
            Strasse r = Strasse r' \<and> PLZ r = PLZ r' \<and> Ort r = Ort r' \<and> Country r = Country r'
            \<longrightarrow> address_for_geocoding r = address_for_geocoding r'"
    using shape[OF assms(2)] shape[OF assms(3)] by metis
  have three: "r \<in> set rows \<and> PLZ r = ds \<and>
                address_for_geocoding r =
                  Strasse r @ '', '' @ ds @ '' '' @ Ort r @ '', '' @ country_label"
    if "row \<in> set df" and p: "parse_row country_label row = Inr (Some r)"
      and c4: "row ! 4 = Val (ds @ ''.'' @ fs)" and nd: "CHR ''.'' \<notin> set ds" for row r ds fs
  proof -
    have r: "r \<in> set rows"
      using extracted_from_row[OF assms(1,2)] that(1) p by blast
    have plz: "PLZ r = ds"
      using parse_row_Some(7)[OF p] c4 split_dot_0_append[OF nd] by simp
    show ?thesis
      using r plz parse_row_Some(9,10)[OF p] by simp
  qed
  show ?thesis using one two three by blast
qed

theorem C8_query_string_witness:
  "parse_sheet [''dm DE'' \<mapsto> [example_row, gesamt_row]] ''dm DE'' ''Germany''
     = Inr [example_record]
   \<and> address_for_geocoding example_record = ''Hauptstr. 1, 76133 Karlsruhe, Germany''
   \<and> example_row ! 4 = Val (''76133'' @ ''.'' @ ''0'')
   \<and> PLZ example_record = ''76133''"
proof -
  let ?x = "[''dm DE'' \<mapsto> [example_row, gesamt_row]]"
  have a: "?x ''dm DE'' = Some [example_row, gesamt_row]" by simp
  have b: "parse_sheet ?x ''dm DE'' ''Germany'' = Inr [example_record]"
    by (simp add: parse_sheet_def read_excel_def)
  have c: "example_row ! 4 = Val (''76133'' @ ''.'' @ ''0'')"
    by (simp add: example_row_def)
  have d: "example_row \<in> set [example_row, gesamt_row]" by simp
  show ?thesis
    using C8_query_string[OF a b b] b c d
    by (simp add: example_record_def)
qed

text \<open>
  Claim C9. Rows that are blank in column 0, or whose column 0 strips to \<open>dm-Markt\<close> or
  \<open>Gesamt\<close>, never reach the extracted records: deleting them from the sheet changes
  nothing in what \<open>parse_sheet\<close> returns, every extracted record comes from a row that
  is not one of them, and no extracted record has a sentinel as its code. A sheet with one
  valid row and one \<open>Gesamt\<close> row, in either order, gives exactly the one record.
\<close>

theorem C9_sentinel_rows_skipped:
  "parse_sheet (xlsx(sheet_name \<mapsto> filter (\<lambda>row. \<not> blank_or_sentinel row) df)) sheet_name l
     = parse_sheet (xlsx(sheet_name \<mapsto> df)) sheet_name l
   \<and> (parse_sheet (xlsx(sheet_name \<mapsto> df)) sheet_name l = Inr rows \<longrightarrow>
        (\<forall>r\<in>set rows. dm_code r \<noteq> ''dm-Markt'' \<and> dm_code r \<noteq> ''Gesamt'' \<and>
           (\<exists>row\<in>set df. \<not> blank_or_sentinel row \<and> parse_row l row = Inr (Some r))))
   \<and> (parse_row l valid = Inr (Some r) \<and> strip (str first) = ''Gesamt'' \<longrightarrow>
        parse_sheet (xlsx(sheet_name \<mapsto> [valid, first # cells])) sheet_name l = Inr [r] \<and>
        parse_sheet (xlsx(sheet_name \<mapsto> [first # cells, valid])) sheet_name l = Inr [r])"
proof -
  have one: "parse_sheet (xlsx(sheet_name \<mapsto> filter (\<lambda>row. \<not> blank_or_sentinel row) df)) sheet_name l
     = parse_sheet (xlsx(sheet_name \<mapsto> df)) sheet_name l"
    by (simp add: parse_sheet_def read_excel_def parse_rows_filter)
  have two: "dm_code r \<noteq> ''dm-Markt'' \<and> dm_code r \<noteq> ''Gesamt'' \<and>
           (\<exists>row\<in>set df. \<not> blank_or_sentinel row \<and> parse_row l row = Inr (Some r))"
    if p: "parse_sheet (xlsx(sheet_name \<mapsto> df)) sheet_name l = Inr rows" and r: "r \<in> set rows"
    for r
  proof -
    have "(xlsx(sheet_name \<mapsto> df)) sheet_name = Some df" by simp
    from extracted_from_row[OF this p] r
    obtain row where row: "row \<in> set df" "parse_row l row = Inr (Some r)" by blast
    have nb: "\<not> blank_or_sentinel row" by (rule parse_row_Some(2)[OF row(2)])
    have len: "6 \<le> length row" by (rule parse_row_Some(1)[OF row(2)])
    then obtain c cs where "row = c # cs" by (cases row) auto
    with nb parse_row_Some(5)[OF row(2)]
    have "dm_code r \<noteq> ''dm-Markt'' \<and> dm_code r \<noteq> ''Gesamt''" by simp
    with row nb show ?thesis by blast
  qed
  have three: "parse_sheet (xlsx(sheet_name \<mapsto> [valid, first # cells])) sheet_name l = Inr [r] \<and>
        parse_sheet (xlsx(sheet_name \<mapsto> [first # cells, valid])) sheet_name l = Inr [r]"
    if v: "parse_row l valid = Inr (Some r)" and g: "strip (str first) = ''Gesamt''"
  proof -
    have "parse_row l (first # cells) = Inr None"
      by (rule parse_row_skipped) (simp add: g)
    with v show ?thesis by (simp add: parse_sheet_def read_excel_def)
  qed
  show ?thesis using one two three by blast
qed

theorem C9_sentinel_rows_skipped_witness:
  "parse_row ''Germany'' example_row = Inr (Some example_record)
   \<and> strip (str (Val ''Gesamt'')) = ''Gesamt''
   \<and> parse_sheet [''dm DE'' \<mapsto> [example_row, gesamt_row]] ''dm DE'' ''Germany''
       = Inr [example_record]
   \<and> parse_sheet [''dm DE'' \<mapsto> [gesamt_row, example_row]] ''dm DE'' ''Germany''
       = Inr [example_record]
   \<and> dm_code example_record \<noteq> ''Gesamt''"
proof -
  have s: "strip (str (Val ''Gesamt'')) = ''Gesamt''"
    by (simp add: strip_def isspace_def)
  have p: "parse_row ''Germany'' example_row = Inr (Some example_record)" by simp
  have d: "dm_code example_record \<noteq> ''Gesamt''" by (simp add: example_record_def)
  show ?thesis
    using C9_sentinel_rows_skipped
      [of Map.empty "''dm DE''" "[]" "''Germany''" "[]" example_row example_record
          "Val ''Gesamt''" "[NaN, NaN, NaN, NaN, NaN]"]
      s p d
    by (simp add: gesamt_row_def)
qed

text \<open>
  Claim C10, as the code has it. For a row of a frame that is at least six columns wide,
  the extractor skips the row if and only if
  column 0 is blank or a sentinel, or the street cell is blank or strips to \<open>Strasse\<close>.
  A row that is not skipped gives a record, whatever the postal-code and city cells hold:
  a blank one of them becomes the empty string in the record and in the query string, and
  the record is among those \<open>parse_sheet\<close> returns for a sheet holding the row.
\<close>

theorem C10_missing_postal_code_or_city:
  assumes "6 \<le> length row"
  shows "(parse_row l row = Inr None \<longleftrightarrow>
            blank_or_sentinel row \<or> isna (row ! 3) \<or> strip (str (row ! 3)) = ''Strasse'')
       \<and> (\<not> blank_or_sentinel row \<and> \<not> isna (row ! 3) \<and> strip (str (row ! 3)) \<noteq> ''Strasse'' \<longrightarrow>
            (\<exists>r. parse_row l row = Inr (Some r) \<and>
                 PLZ r = (if isna (row ! 4) then [] else split_dot_0 (str (row ! 4))) \<and>
                 Ort r = (if isna (row ! 5) then [] else str (row ! 5)) \<and>
                 address_for_geocoding r =
                   strip (str (row ! 3)) @ '', '' @ PLZ r @ '' '' @ Ort r @ '', '' @ l \<and>
                 (\<forall>xlsx sheet_name df rows.
                    xlsx sheet_name = Some df \<and> row \<in> set df \<and>
                    parse_sheet xlsx sheet_name l = Inr rows \<longrightarrow> r \<in> set rows)))"
proof -
  have one: "parse_row l row = Inr None \<longleftrightarrow>
            blank_or_sentinel row \<or> isna (row ! 3) \<or> strip (str (row ! 3)) = ''Strasse''"
    by (rule parse_row_None_iff[OF assms])
  have two: "\<exists>r. parse_row l row = Inr (Some r) \<and>
                 PLZ r = (if isna (row ! 4) then [] else split_dot_0 (str (row ! 4))) \<and>
                 Ort r = (if isna (row ! 5) then [] else str (row ! 5)) \<and>
                 address_for_geocoding r =
                   strip (str (row ! 3)) @ '', '' @ PLZ r @ '' '' @ Ort r @ '', '' @ l \<and>
                 (\<forall>xlsx sheet_name df rows.
                    xlsx sheet_name = Some df \<and> row \<in> set df \<and>
                    parse_sheet xlsx sheet_name l = Inr rows \<longrightarrow> r \<in> set rows)"
    if ns: "\<not> blank_or_sentinel row \<and> \<not> isna (row ! 3) \<and> strip (str (row ! 3)) \<noteq> ''Strasse''"
  proof -
    from ns one have nn: "parse_row l row \<noteq> Inr None" by simp
    have "\<forall>e. parse_row l row \<noteq> Inl e"
      using assms by (auto simp: parse_row_def row_get_def Let_def split: sum.splits)
    with nn obtain r where r: "parse_row l row = Inr (Some r)"
      by (cases "parse_row l row") auto
    have "r \<in> set rows"
      if "xlsx sheet_name = Some df" "row \<in> set df" "parse_sheet xlsx sheet_name l = Inr rows"
      for xlsx sheet_name df rows
      using extracted_from_row[OF that(1,3)] that(2) r by blast
    with r parse_row_Some(6,7,8,9,10)[OF r] show ?thesis by auto
  qed
  show ?thesis using one two by blast
qed

lemma parse_bare_row [simp]: "parse_row ''Austria'' bare_row = Inr (Some bare_record)"
  by (simp add: extractor_eval bare_row_def bare_record_def)

lemma parse_twin_rows [simp]:
  "parse_row ''Germany'' twin_row = Inr (Some twin_record)"
  "parse_row ''Austria'' wien_row = Inr (Some wien_record)"
  by (simp_all add: extractor_eval twin_row_def twin_record_def wien_row_def wien_record_def)

theorem C10_missing_postal_code_or_city_witness:
  "6 \<le> length bare_row
   \<and> \<not> blank_or_sentinel bare_row \<and> isna (bare_row ! 4) \<and> isna (bare_row ! 5)
   \<and> parse_row ''Austria'' bare_row = Inr (Some bare_record)
   \<and> PLZ bare_record = [] \<and> Ort bare_record = []
   \<and> address_for_geocoding bare_record = ''Ring 2,  , Austria''
   \<and> parse_sheet [''dm AT'' \<mapsto> [wien_row, bare_row]] ''dm AT'' ''Austria''
       = Inr [wien_record, bare_record]"
proof -
  have len: "6 \<le> length bare_row" by (simp add: bare_row_def)
  have c: "\<not> blank_or_sentinel bare_row \<and> isna (bare_row ! 4) \<and> isna (bare_row ! 5) \<and>
           \<not> isna (bare_row ! 3) \<and> strip (str (bare_row ! 3)) \<noteq> ''Strasse''"
    by (simp add: bare_row_def strip_def isspace_def)
  show ?thesis
    using C10_missing_postal_code_or_city[OF len, of "''Austria''"] len c
    by (simp add: parse_sheet_def read_excel_def bare_record_def)
qed

text \<open>
  Claim C10 as stated fails. In a sheet whose postal-code and city cells are blank in
  every row the frame has four columns. A row with a code and a street then gives no
  record: \<open>row[4]\<close> raises \<open>KeyError\<close>, and \<open>parse_sheet\<close> with it.
\<close>

theorem C10_four_column_sheet:
  "\<not> blank_or_sentinel narrow_row
   \<and> \<not> isna (narrow_row ! 3) \<and> strip (str (narrow_row ! 3)) = ''Ring 2''
   \<and> parse_row ''Austria'' narrow_row = Inl (KeyError (IntKey 4))
   \<and> parse_sheet [''dm AT'' \<mapsto> [narrow_row]] ''dm AT'' ''Austria''
       = Inl (KeyError (IntKey 4))"
  by (simp add: extractor_eval narrow_row_def)

section \<open>The Geocode Client Adapter\<close>

declare geocode_retry.simps [simp del]

lemma geocode_calls_append [simp]: "geocode_calls (xs @ ys) = geocode_calls xs @ geocode_calls ys"
  by (induction xs rule: geocode_calls.induct) auto

lemma backoffs_append [simp]: "backoffs (xs @ ys) = backoffs xs @ backoffs ys"
  by (induction xs rule: backoffs.induct) auto

lemma take_length_eq: "take (length n) h = n \<longleftrightarrow> (\<exists>s. h = n @ s)"
  by (metis append_eq_conv_conj append_take_drop_id)

lemma contains_iff: "contains needle hay \<longleftrightarrow> (\<exists>p s. hay = p @ needle @ s)"
proof (induction hay)
  case Nil
  then show ?case by auto
next
  case (Cons c cs)
  have "(\<exists>p s. c # cs = p @ needle @ s) \<longleftrightarrow>
        (\<exists>s. c # cs = needle @ s) \<or> (\<exists>p s. cs = p @ needle @ s)"
  proof
    assume "\<exists>p s. c # cs = p @ needle @ s"
    then obtain p s where ps: "c # cs = p @ needle @ s" by blast
    show "(\<exists>s. c # cs = needle @ s) \<or> (\<exists>p s. cs = p @ needle @ s)"
    proof (cases p)
      case Nil
      with ps show ?thesis by auto
    next
      case (Cons x p')
      with ps have "cs = p' @ needle @ s" by simp
      then show ?thesis by blast
    qed
  next
    assume "(\<exists>s. c # cs = needle @ s) \<or> (\<exists>p s. cs = p @ needle @ s)"
    then show "\<exists>p s. c # cs = p @ needle @ s"
    proof
      assume "\<exists>s. c # cs = needle @ s"
      then obtain s where "c # cs = [] @ needle @ s" by auto
      then show ?thesis by blast
    next
      assume "\<exists>p s. cs = p @ needle @ s"
      then obtain p s where "c # cs = (c # p) @ needle @ s" by auto
      then show ?thesis by blast
    qed
  qed
  with Cons.IH show ?case
    by (simp only: contains.simps take_length_eq)
qed

lemma wait_exponential_bounds:
  "2 \<le> wait_exponential 1 2 60 n \<and> wait_exponential 1 2 60 n \<le> 60"
  by (simp add: wait_exponential_def)

lemma geocode_retry_stop:
  assumes "\<not> (retry_if_rate_limit (geocode_body (fst (gmaps (pstate w) a))) \<and> k < 6)"
  shows "geocode_retry gmaps a k w =
           (geocode_body (fst (gmaps (pstate w) a)),
            \<lparr>pstate = snd (gmaps (pstate w) a), trace = trace w @ [Geocode a]\<rparr>)"
  using assms
  by (subst geocode_retry.simps) (auto simp: Let_def stop_after_attempt_def)

lemma geocode_retry_again:
  assumes "retry_if_rate_limit (geocode_body (fst (gmaps (pstate w) a)))" and "k < 6"
  shows "geocode_retry gmaps a k w =
           geocode_retry gmaps a (k + 1)
             \<lparr>pstate = snd (gmaps (pstate w) a),
              trace = trace w @ [Geocode a, Backoff (wait_exponential 1 2 60 k)]\<rparr>"
  using assms
  by (subst geocode_retry.simps) (auto simp: Let_def stop_after_attempt_def)

lemma geocode_retry_events:
  assumes "geocode_retry gmaps a k w = (r, w')" and "k \<le> 6"
  shows "\<exists>ev. trace w' = trace w @ ev \<and>
              geocode_calls ev = replicate (length (geocode_calls ev)) a \<and>
              1 \<le> length (geocode_calls ev) \<and> length (geocode_calls ev) \<le> 7 - k \<and>
              (retry_if_rate_limit r \<longrightarrow> length (geocode_calls ev) = 7 - k) \<and>
              length (backoffs ev) + 1 = length (geocode_calls ev) \<and>
              (\<forall>n\<in>set (backoffs ev). 2 \<le> n \<and> n \<le> 60) \<and>
              Sleep \<notin> set ev \<and> last ev = Geocode a"
  using assms
proof (induction "6 - k" arbitrary: k w)
  case 0
  then have k: "k = 6" by simp
  then have "\<not> (retry_if_rate_limit (geocode_body (fst (gmaps (pstate w) a))) \<and> k < 6)" by simp
  from geocode_retry_stop[where gmaps=gmaps and w=w and a=a and k=k, OF this] "0.prems"(1)
  have "trace w' = trace w @ [Geocode a]" by auto
  then show ?case using k by (intro exI[of _ "[Geocode a]"]) simp
next
  case (Suc d)
  then have k: "k < 6" by simp
  show ?case
  proof (cases "retry_if_rate_limit (geocode_body (fst (gmaps (pstate w) a)))")
    case False
    then have "\<not> (retry_if_rate_limit (geocode_body (fst (gmaps (pstate w) a))) \<and> k < 6)" by simp
    from geocode_retry_stop[where gmaps=gmaps and w=w and a=a and k=k, OF this] Suc.prems(1)
    have "trace w' = trace w @ [Geocode a]" and "r = geocode_body (fst (gmaps (pstate w) a))"
      by auto
    then show ?thesis using k False by (intro exI[of _ "[Geocode a]"]) simp
  next
    case True
    let ?w1 = "\<lparr>pstate = snd (gmaps (pstate w) a),
              trace = trace w @ [Geocode a, Backoff (wait_exponential 1 2 60 k)]\<rparr>"
    from geocode_retry_again[where gmaps=gmaps and w=w and a=a and k=k, OF True k] Suc.prems(1)
    have step: "geocode_retry gmaps a (k + 1) ?w1 = (r, w')" by simp
    have d: "d = 6 - (k + 1)" using Suc.hyps(2) by simp
    have k1: "k + 1 \<le> 6" using k by simp
    from Suc.hyps(1)[OF d step k1]
    obtain ev where ev: "trace w' = trace ?w1 @ ev"
      "geocode_calls ev = replicate (length (geocode_calls ev)) a"
      "1 \<le> length (geocode_calls ev)" "length (geocode_calls ev) \<le> 7 - (k + 1)"
      "retry_if_rate_limit r \<longrightarrow> length (geocode_calls ev) = 7 - (k + 1)"
      "length (backoffs ev) + 1 = length (geocode_calls ev)"
      "\<forall>n\<in>set (backoffs ev). 2 \<le> n \<and> n \<le> 60"
      "Sleep \<notin> set ev" "last ev = Geocode a"
      by blast
    let ?ev = "[Geocode a, Backoff (wait_exponential 1 2 60 k)] @ ev"
    have ne: "ev \<noteq> []" using ev(3) by auto
    have "trace w' = trace w @ ?ev" using ev(1) by simp
    moreover have "geocode_calls ?ev = replicate (length (geocode_calls ?ev)) a"
      using ev(2) by simp
    moreover have "1 \<le> length (geocode_calls ?ev)" by simp
    moreover have "length (geocode_calls ?ev) \<le> 7 - k" using ev(4) k by simp
    moreover have "retry_if_rate_limit r \<longrightarrow> length (geocode_calls ?ev) = 7 - k"
      using ev(5) k by auto
    moreover have "length (backoffs ?ev) + 1 = length (geocode_calls ?ev)" using ev(6) by simp
    moreover have "\<forall>n\<in>set (backoffs ?ev). 2 \<le> n \<and> n \<le> 60"
      using ev(7) wait_exponential_bounds[of k] by simp
    moreover have "Sleep \<notin> set ?ev" using ev(8) by simp
    moreover have "last ?ev = Geocode a" using ev(9) ne by simp
    ultimately show ?thesis by blast
  qed
qed

lemma retry_if_rate_limit_iff: "retry_if_rate_limit r \<longleftrightarrow> (\<exists>m. r = Inl (RateLimitError m))"
  by (cases r rule: retry_if_rate_limit.cases) auto


text \<open>
  Claim C6. One attempt of \<open>geocode_one\<close> raises \<open>RateLimitError\<close> exactly when the
  provider raised and its message contains \<open>OVER_QUERY_LIMIT\<close> or
  \<open>OVER_DAILY_LIMIT\<close>; any other failure of the provider is raised again with its
  message unchanged; an empty list of results gives \<open>None\<close>, which is not an error; a
  non-empty list gives the coordinates and identifiers of its first result.
\<close>

theorem C6_single_geocode_call:
  "((\<exists>m. geocode_body resp = Inl (RateLimitError m)) \<longleftrightarrow>
      (\<exists>msg p s. resp = Raises msg \<and>
                 (msg = p @ ''OVER_QUERY_LIMIT'' @ s \<or> msg = p @ ''OVER_DAILY_LIMIT'' @ s)))
   \<and> (\<forall>msg. geocode_body (Raises msg) =
              (if (\<exists>p s. msg = p @ ''OVER_QUERY_LIMIT'' @ s) \<or> (\<exists>p s. msg = p @ ''OVER_DAILY_LIMIT'' @ s)
               then Inl (RateLimitError msg) else Inl (ProviderException msg)))
   \<and> geocode_body (Returns []) = Inr None
   \<and> (\<forall>best more. geocode_body (Returns (best # more)) =
         Inr (Some \<lparr>g_latitude = lat best, g_longitude = lng best, g_place_id = r_place_id best,
                    g_formatted_address = r_formatted_address best\<rparr>))"
proof -
  have raises: "geocode_body (Raises msg) =
              (if (\<exists>p s. msg = p @ ''OVER_QUERY_LIMIT'' @ s) \<or> (\<exists>p s. msg = p @ ''OVER_DAILY_LIMIT'' @ s)
               then Inl (RateLimitError msg) else Inl (ProviderException msg))" for msg
    unfolding geocode_body_def contains_iff by simp
  have returns: "geocode_body (Returns rs) \<noteq> Inl (RateLimitError m)" for rs m
    by (cases rs) (simp_all add: geocode_body_def)
  have one: "(\<exists>m. geocode_body resp = Inl (RateLimitError m)) \<longleftrightarrow>
      (\<exists>msg p s. resp = Raises msg \<and>
                 (msg = p @ ''OVER_QUERY_LIMIT'' @ s \<or> msg = p @ ''OVER_DAILY_LIMIT'' @ s))"
  proof (cases resp)
    case (Returns rs)
    then show ?thesis using returns by simp
  next
    case (Raises msg)
    then show ?thesis unfolding Raises raises by auto
  qed
  show ?thesis using one raises by (simp add: geocode_body_def)
qed

theorem C6_single_geocode_call_witness:
  "geocode_body (Raises ''status: OVER_QUERY_LIMIT'') = Inl (RateLimitError ''status: OVER_QUERY_LIMIT'')
   \<and> geocode_body (Raises ''Timeout'') = Inl (ProviderException ''Timeout'')
   \<and> geocode_body (Returns []) = Inr None"
proof -
  have a: "geocode_body (Raises ''status: OVER_QUERY_LIMIT'')
             = Inl (RateLimitError ''status: OVER_QUERY_LIMIT'')"
    by (simp add: geocode_body_def)
  have b: "geocode_body (Raises ''Timeout'') = Inl (ProviderException ''Timeout'')"
    by (simp add: geocode_body_def)
  show ?thesis
    using C6_single_geocode_call[of "Raises ''Timeout''"] a b by simp
qed


lemmas geocode_eval =
  geocode_one_def geocode_retry.simps geocode_body_def stop_after_attempt_def
  wait_exponential_def Let_def


section \<open>The loop over the misses\<close>

lemma c_address_entry_for [simp]: "c_address (entry_for addr r) = addr"
  by (cases "(addr, r)" rule: entry_for.cases)
     (simp_all add: not_found_entry_def ok_entry_def error_entry_def)

lemma fetch_loop_abort:
  "geocode_one gmaps addr w = (Inl (RateLimitError m), w1) \<Longrightarrow>
     fetch_loop gmaps (addr # rest) results w = (RateLimited results, w1)"
  by simp

declare fetch_loop.simps(2) [simp del]

lemma fetch_loop_continue:
  assumes "geocode_one gmaps addr w = (r, w1)" and "\<not> retry_if_rate_limit r"
  shows "fetch_loop gmaps (addr # rest) results w =
           fetch_loop gmaps rest (results @ [entry_for addr r]) (sleep w1)"
proof (cases r)
  case (Inl e)
  with assms show ?thesis by (cases e) (simp_all add: fetch_loop.simps(2))
next
  case (Inr d)
  with assms show ?thesis by (cases d) (simp_all add: fetch_loop.simps(2))
qed

lemma geocode_one_calls:
  assumes "geocode_one gmaps a w = (r, w')"
  shows "\<exists>ev. trace w' = trace w @ ev \<and> set (geocode_calls ev) = {a} \<and>
              length (geocode_calls ev) \<le> 6 \<and>
              (retry_if_rate_limit r \<longrightarrow> length (geocode_calls ev) = 6) \<and>
              Sleep \<notin> set ev \<and> last ev = Geocode a"
proof -
  from assms have "geocode_retry gmaps a 1 w = (r, w')" by (simp add: geocode_one_def)
  from geocode_retry_events[OF this]
  obtain ev where ev: "trace w' = trace w @ ev"
    "geocode_calls ev = replicate (length (geocode_calls ev)) a"
    "1 \<le> length (geocode_calls ev)" "length (geocode_calls ev) \<le> 7 - 1"
    "retry_if_rate_limit r \<longrightarrow> length (geocode_calls ev) = 7 - 1"
    "Sleep \<notin> set ev" "last ev = Geocode a"
    by auto
  have "set (geocode_calls ev) = {a}"
    using ev(3) by (subst ev(2)) auto
  with ev show ?thesis by auto
qed

lemma geocode_one_called:
  assumes "geocode_one gmaps a w = (r, w')"
  shows "set (geocode_calls (trace w')) = set (geocode_calls (trace w)) \<union> {a}"
proof -
  from geocode_one_calls[OF assms]
  obtain ev where "trace w' = trace w @ ev" "set (geocode_calls ev) = {a}" by blast
  then show ?thesis by simp
qed

lemma called_sleep [simp]: "geocode_calls (trace (sleep w)) = geocode_calls (trace w)"
  by (simp add: sleep_def)

lemma fetch_loop_Completed:
  assumes "fetch_loop gmaps to_fetch results w = (Completed rs, w')"
  shows "\<exists>new. rs = results @ new \<and> map c_address new = to_fetch \<and>
               set (geocode_calls (trace w')) = set (geocode_calls (trace w)) \<union> set to_fetch"
  using assms
proof (induction to_fetch arbitrary: results w)
  case Nil
  then show ?case by simp
next
  case (Cons a rest)
  obtain r w1 where g: "geocode_one gmaps a w = (r, w1)" by (cases "geocode_one gmaps a w")
  have calls: "set (geocode_calls (trace w1)) = set (geocode_calls (trace w)) \<union> {a}"
    by (rule geocode_one_called[OF g])
  show ?case
  proof (cases "retry_if_rate_limit r")
    case True
    then obtain m where "r = Inl (RateLimitError m)" by (auto simp: retry_if_rate_limit_iff)
    with g have "fetch_loop gmaps (a # rest) results w = (RateLimited results, w1)"
      using fetch_loop_abort by blast
    with Cons.prems show ?thesis by simp
  next
    case False
    from fetch_loop_continue[OF g False] Cons.prems
    have "fetch_loop gmaps rest (results @ [entry_for a r]) (sleep w1) = (Completed rs, w')"
      by simp
    from Cons.IH[OF this] obtain new where new: "rs = (results @ [entry_for a r]) @ new"
      "map c_address new = rest"
      "set (geocode_calls (trace w')) = set (geocode_calls (trace (sleep w1))) \<union> set rest"
      by blast
    have 1: "rs = results @ (entry_for a r # new)" using new(1) by simp
    have 2: "map c_address (entry_for a r # new) = a # rest" using new(2) by simp
    have 3: "set (geocode_calls (trace w')) = set (geocode_calls (trace w)) \<union> set (a # rest)"
      using new(3) calls by auto
    show ?thesis
      by (rule exI[of _ "entry_for a r # new"]) (intro conjI 1 2 3)
  qed
qed

lemma fetch_loop_RateLimited:
  assumes "fetch_loop gmaps to_fetch results w = (RateLimited rs, w')"
  shows "\<exists>new pre a post m w1.
           to_fetch = pre @ a # post \<and> rs = results @ new \<and> map c_address new = pre \<and>
           geocode_one gmaps a w1 = (Inl (RateLimitError m), w') \<and>
           set (geocode_calls (trace w')) = set (geocode_calls (trace w)) \<union> set pre \<union> {a}"
  using assms
proof (induction to_fetch arbitrary: results w)
  case Nil
  then show ?case by simp
next
  case (Cons a rest)
  obtain r w1 where g: "geocode_one gmaps a w = (r, w1)" by (cases "geocode_one gmaps a w")
  have calls: "set (geocode_calls (trace w1)) = set (geocode_calls (trace w)) \<union> {a}"
    by (rule geocode_one_called[OF g])
  show ?case
  proof (cases "retry_if_rate_limit r")
    case True
    then obtain m where m: "r = Inl (RateLimitError m)" by (auto simp: retry_if_rate_limit_iff)
    with g have "fetch_loop gmaps (a # rest) results w = (RateLimited results, w1)"
      using fetch_loop_abort by blast
    with Cons.prems have eq: "rs = results" "w' = w1" by simp_all
    have 1: "a # rest = [] @ a # rest" by simp
    have 2: "rs = results @ []" using eq by simp
    have 3: "map c_address ([] :: cache_entry list) = []" by simp
    have 4: "geocode_one gmaps a w = (Inl (RateLimitError m), w')" using g m eq by simp
    have 5: "set (geocode_calls (trace w')) = set (geocode_calls (trace w)) \<union> set [] \<union> {a}"
      using calls eq by simp
    show ?thesis
      by (rule exI[of _ "[]"], rule exI[of _ "[]"], rule exI[of _ a], rule exI[of _ rest],
          rule exI[of _ m], rule exI[of _ w]) (intro conjI 1 2 3 4 5)
  next
    case False
    from fetch_loop_continue[OF g False] Cons.prems
    have "fetch_loop gmaps rest (results @ [entry_for a r]) (sleep w1) = (RateLimited rs, w')"
      by simp
    from Cons.IH[OF this] obtain new pre b post m w2 where new:
      "rest = pre @ b # post" "rs = (results @ [entry_for a r]) @ new"
      "map c_address new = pre" "geocode_one gmaps b w2 = (Inl (RateLimitError m), w')"
      "set (geocode_calls (trace w')) = set (geocode_calls (trace (sleep w1))) \<union> set pre \<union> {b}"
      by blast
    have 1: "a # rest = (a # pre) @ b # post" using new(1) by simp
    have 2: "rs = results @ (entry_for a r # new)" using new(2) by simp
    have 3: "map c_address (entry_for a r # new) = a # pre" using new(3) by simp
    have 5: "set (geocode_calls (trace w')) =
                     set (geocode_calls (trace w)) \<union> set (a # pre) \<union> {b}"
      using new(5) calls by auto
    show ?thesis
      by (rule exI[of _ "entry_for a r # new"], rule exI[of _ "a # pre"], rule exI[of _ b],
          rule exI[of _ post], rule exI[of _ m], rule exI[of _ w2]) (intro conjI 1 2 3 new(4) 5)
  qed
qed

lemma geocode_one_first_attempt:
  assumes "\<forall>m. geocode_body (fst (gmaps (pstate w) a)) \<noteq> Inl (RateLimitError m)"
  shows "geocode_one gmaps a w =
           (geocode_body (fst (gmaps (pstate w) a)),
            \<lparr>pstate = snd (gmaps (pstate w) a), trace = trace w @ [Geocode a]\<rparr>)"
  unfolding geocode_one_def
  using geocode_retry_stop[where gmaps=gmaps and a=a and w=w and k=1] assms
  by (simp add: retry_if_rate_limit_iff)

lemma fetch_loop_never_limited:
  assumes "\<forall>a\<in>set to_fetch. \<forall>p m. geocode_body (fst (gmaps p a)) \<noteq> Inl (RateLimitError m)"
  shows "\<exists>rs w'. fetch_loop gmaps to_fetch results w = (Completed rs, w')"
  using assms
proof (induction to_fetch arbitrary: results w)
  case Nil
  then show ?case by simp
next
  case (Cons a rest)
  let ?r = "geocode_body (fst (gmaps (pstate w) a))"
  let ?w1 = "\<lparr>pstate = snd (gmaps (pstate w) a), trace = trace w @ [Geocode a]\<rparr>"
  have nl: "\<forall>m. ?r \<noteq> Inl (RateLimitError m)" using Cons.prems by simp
  have g: "geocode_one gmaps a w = (?r, ?w1)" by (rule geocode_one_first_attempt[where gmaps=gmaps and a=a and w=w, OF nl])
  have nr: "\<not> retry_if_rate_limit ?r" using nl by (simp add: retry_if_rate_limit_iff)
  have rest: "\<forall>a\<in>set rest. \<forall>p m. geocode_body (fst (gmaps p a)) \<noteq> Inl (RateLimitError m)"
    using Cons.prems by simp
  show ?case
    unfolding fetch_loop_continue[OF g nr]
    by (rule Cons.IH[OF rest])
qed

text \<open>
  Claim C3. What the loop of \<open>main\<close> does with one miss. When \<open>geocode_one\<close> returns
  data, the loop appends an entry with status \<open>OK\<close>, the returned latitude, longitude and
  place identifier, and goes on with the remaining addresses; when it returns \<open>None\<close>,
  the entry has status \<open>NOT_FOUND\<close> and no coordinates, and the loop goes on; when it
  raises anything but \<open>RateLimitError\<close>, the entry has status \<open>ERROR: \<close> followed by the
  text of the exception and no coordinates, and the loop goes on. These three outcomes are
  what the provider's answer gives: a non-empty list of results, an empty list, a failure
  whose message has no quota marker. A loop that runs to its end has appended one entry
  per miss, in order, and a provider that never signals the rate limit lets it run to its
  end.
\<close>

theorem C3_outcome_of_each_miss:
  "(geocode_one gmaps addr w = (Inr (Some data), w1) \<longrightarrow>
      fetch_loop gmaps (addr # rest) results w =
        fetch_loop gmaps rest
          (results @ [\<lparr>c_address = addr, latitude = g_latitude data,
                        longitude = g_longitude data, place_id = g_place_id data,
                        geocode_status = ''OK''\<rparr>]) (sleep w1))
   \<and> (geocode_one gmaps addr w = (Inr None, w1) \<longrightarrow>
      fetch_loop gmaps (addr # rest) results w =
        fetch_loop gmaps rest
          (results @ [\<lparr>c_address = addr, latitude = None, longitude = None, place_id = None,
                        geocode_status = ''NOT_FOUND''\<rparr>]) (sleep w1))
   \<and> (geocode_one gmaps addr w = (Inl e, w1) \<and> (\<forall>m. e \<noteq> RateLimitError m) \<longrightarrow>
      fetch_loop gmaps (addr # rest) results w =
        fetch_loop gmaps rest
          (results @ [\<lparr>c_address = addr, latitude = None, longitude = None, place_id = None,
                        geocode_status = ''ERROR: '' @ str_error e\<rparr>]) (sleep w1))
   \<and> (gmaps (pstate w) addr = (Returns (best # others), p1) \<longrightarrow>
      geocode_one gmaps addr w =
        (Inr (Some \<lparr>g_latitude = lat best, g_longitude = lng best, g_place_id = r_place_id best,
                     g_formatted_address = r_formatted_address best\<rparr>),
         \<lparr>pstate = p1, trace = trace w @ [Geocode addr]\<rparr>))
   \<and> (gmaps (pstate w) addr = (Returns [], p1) \<longrightarrow>
      geocode_one gmaps addr w = (Inr None, \<lparr>pstate = p1, trace = trace w @ [Geocode addr]\<rparr>))
   \<and> (gmaps (pstate w) addr = (Raises msg, p1) \<and>
       \<not> contains ''OVER_QUERY_LIMIT'' msg \<and> \<not> contains ''OVER_DAILY_LIMIT'' msg \<longrightarrow>
      geocode_one gmaps addr w =
        (Inl (ProviderException msg), \<lparr>pstate = p1, trace = trace w @ [Geocode addr]\<rparr>) \<and>
      str_error (ProviderException msg) = msg)
   \<and> (fetch_loop gmaps to_fetch [] w = (Completed rs, w') \<longrightarrow> map c_address rs = to_fetch)
   \<and> ((\<forall>a\<in>set to_fetch. \<forall>p m. geocode_body (fst (gmaps p a)) \<noteq> Inl (RateLimitError m)) \<longrightarrow>
        (\<exists>rs w'. fetch_loop gmaps to_fetch [] w = (Completed rs, w')))"
proof -
  have ok: "fetch_loop gmaps (addr # rest) results w =
        fetch_loop gmaps rest
          (results @ [\<lparr>c_address = addr, latitude = g_latitude data,
                        longitude = g_longitude data, place_id = g_place_id data,
                        geocode_status = ''OK''\<rparr>]) (sleep w1)"
    if "geocode_one gmaps addr w = (Inr (Some data), w1)"
    using fetch_loop_continue[OF that, of rest results] by (simp add: ok_entry_def)
  have nf: "fetch_loop gmaps (addr # rest) results w =
        fetch_loop gmaps rest
          (results @ [\<lparr>c_address = addr, latitude = None, longitude = None, place_id = None,
                        geocode_status = ''NOT_FOUND''\<rparr>]) (sleep w1)"
    if "geocode_one gmaps addr w = (Inr None, w1)"
    using fetch_loop_continue[OF that, of rest results] by (simp add: not_found_entry_def)
  have err: "fetch_loop gmaps (addr # rest) results w =
        fetch_loop gmaps rest
          (results @ [\<lparr>c_address = addr, latitude = None, longitude = None, place_id = None,
                        geocode_status = ''ERROR: '' @ str_error e\<rparr>]) (sleep w1)"
    if "geocode_one gmaps addr w = (Inl e, w1)" and "\<forall>m. e \<noteq> RateLimitError m"
    using fetch_loop_continue[OF that(1), of rest results] that(2)
    by (simp add: error_entry_def retry_if_rate_limit_iff)
  have p_ok: "geocode_one gmaps addr w =
        (Inr (Some \<lparr>g_latitude = lat best, g_longitude = lng best, g_place_id = r_place_id best,
                     g_formatted_address = r_formatted_address best\<rparr>),
         \<lparr>pstate = p1, trace = trace w @ [Geocode addr]\<rparr>)"
    if "gmaps (pstate w) addr = (Returns (best # others), p1)"
    using geocode_one_first_attempt[where gmaps=gmaps and a=addr and w=w] that
    by (simp add: geocode_body_def)
  have p_nf: "geocode_one gmaps addr w =
        (Inr None, \<lparr>pstate = p1, trace = trace w @ [Geocode addr]\<rparr>)"
    if "gmaps (pstate w) addr = (Returns [], p1)"
    using geocode_one_first_attempt[where gmaps=gmaps and a=addr and w=w] that
    by (simp add: geocode_body_def)
  have p_err: "geocode_one gmaps addr w =
        (Inl (ProviderException msg), \<lparr>pstate = p1, trace = trace w @ [Geocode addr]\<rparr>) \<and>
      str_error (ProviderException msg) = msg"
    if "gmaps (pstate w) addr = (Raises msg, p1) \<and>
       \<not> contains ''OVER_QUERY_LIMIT'' msg \<and> \<not> contains ''OVER_DAILY_LIMIT'' msg"
    using geocode_one_first_attempt[where gmaps=gmaps and a=addr and w=w] that
    by (simp add: geocode_body_def)
  have all: "map c_address rs = to_fetch"
    if "fetch_loop gmaps to_fetch [] w = (Completed rs, w')"
    using fetch_loop_Completed[OF that] by auto
  have cont: "\<exists>rs w'. fetch_loop gmaps to_fetch [] w = (Completed rs, w')"
    if "\<forall>a\<in>set to_fetch. \<forall>p m. geocode_body (fst (gmaps p a)) \<noteq> Inl (RateLimitError m)"
    by (rule fetch_loop_never_limited[OF that])
  show ?thesis
    by (intro conjI impI ok nf err p_ok p_nf p_err all cont) (simp_all only: simp_thms)
qed

lemmas loop_eval =
  fetch_loop.simps sleep_def not_found_entry_def ok_entry_def error_entry_def

theorem C3_outcome_of_each_miss_witness:
  "fetch_loop scripted [''A'', ''B'', ''C''] [] \<lparr>pstate = example_script, trace = []\<rparr> =
     (Completed
        [\<lparr>c_address = ''A'', latitude = Some 49, longitude = Some 8, place_id = Some ''ChIJ'',
          geocode_status = ''OK''\<rparr>,
         \<lparr>c_address = ''B'', latitude = None, longitude = None, place_id = None,
          geocode_status = ''NOT_FOUND''\<rparr>,
         \<lparr>c_address = ''C'', latitude = None, longitude = None, place_id = None,
          geocode_status = ''ERROR: Timeout''\<rparr>],
      \<lparr>pstate = [],
       trace = [Geocode ''A'', Sleep, Geocode ''B'', Sleep, Geocode ''C'', Sleep]\<rparr>)"
proof -
  let ?w0 = "\<lparr>pstate = example_script, trace = []\<rparr>"
  let ?w1 = "\<lparr>pstate = [Returns [], Raises ''Timeout''], trace = [Geocode ''A'']\<rparr>"
  let ?w2 = "\<lparr>pstate = [Raises ''Timeout''], trace = [Geocode ''A'', Sleep, Geocode ''B'']\<rparr>"
  let ?w3 = "\<lparr>pstate = [] :: response list,
             trace = [Geocode ''A'', Sleep, Geocode ''B'', Sleep, Geocode ''C'']\<rparr>"
  have a: "scripted (pstate ?w0) ''A'' = (Returns (example_best # []), [Returns [], Raises ''Timeout''])"
    by (simp add: example_script_def)
  have b: "scripted (pstate (sleep ?w1)) ''B'' = (Returns [], [Raises ''Timeout''])"
    by (simp add: sleep_def)
  have c: "scripted (pstate (sleep ?w2)) ''C'' = (Raises ''Timeout'', []) \<and>
           \<not> contains ''OVER_QUERY_LIMIT'' ''Timeout'' \<and> \<not> contains ''OVER_DAILY_LIMIT'' ''Timeout''"
    by (simp add: sleep_def)
  note A = C3_outcome_of_each_miss[where gmaps=scripted and addr="''A''" and w="?w0"
      and best=example_best and others="[]" and ?p1.0="[Returns [], Raises ''Timeout'']"
      and ?w1.0="?w1" and rest="[''B'', ''C'']" and results="[]"
      and data="\<lparr>g_latitude = lat example_best, g_longitude = lng example_best,
                  g_place_id = r_place_id example_best,
                  g_formatted_address = r_formatted_address example_best\<rparr>"]
  note B = C3_outcome_of_each_miss[where gmaps=scripted and addr="''B''" and w="sleep ?w1"
      and ?p1.0="[Raises ''Timeout'']" and ?w1.0="?w2" and rest="[''C'']"
      and results="[\<lparr>c_address = ''A'', latitude = Some 49, longitude = Some 8,
                      place_id = Some ''ChIJ'', geocode_status = ''OK''\<rparr>]"]
  note C = C3_outcome_of_each_miss[where gmaps=scripted and addr="''C''" and w="sleep ?w2"
      and msg="''Timeout''" and ?p1.0="[]" and ?w1.0="?w3" and rest="[]"
      and e="ProviderException ''Timeout''"
      and results="[\<lparr>c_address = ''A'', latitude = Some 49, longitude = Some 8,
                      place_id = Some ''ChIJ'', geocode_status = ''OK''\<rparr>,
                    \<lparr>c_address = ''B'', latitude = None, longitude = None, place_id = None,
                      geocode_status = ''NOT_FOUND''\<rparr>]"]
  show ?thesis
    using A a B b C c
    by (simp add: sleep_def example_best_def)
qed

section \<open>Saving the cache and ending the run\<close>

lemma keys_drop_duplicates_last:
  "set (map c_address (drop_duplicates_last xs)) = set (map c_address xs)"
  by (induction xs) auto

lemma distinct_drop_duplicates_last: "distinct (map c_address (drop_duplicates_last xs))"
proof (induction xs)
  case Nil
  then show ?case by simp
next
  case (Cons e es)
  have "c_address e \<notin> set (map c_address (drop_duplicates_last es))"
    if "c_address e \<notin> set (map c_address es)"
    using that keys_drop_duplicates_last[of es] by simp
  with Cons show ?case by simp
qed

lemma in_drop_duplicates_last:
  "e \<in> set (drop_duplicates_last xs) \<longleftrightarrow>
     (\<exists>pre post. xs = pre @ e # post \<and> c_address e \<notin> set (map c_address post))"
proof (induction xs)
  case Nil
  then show ?case by simp
next
  case (Cons x xs)
  show ?case
  proof
    assume l: "e \<in> set (drop_duplicates_last (x # xs))"
    show "\<exists>pre post. x # xs = pre @ e # post \<and> c_address e \<notin> set (map c_address post)"
    proof (cases "e \<in> set (drop_duplicates_last xs)")
      case True
      with Cons.IH obtain pre post where
        "xs = pre @ e # post" "c_address e \<notin> set (map c_address post)" by blast
      then have "x # xs = (x # pre) @ e # post \<and> c_address e \<notin> set (map c_address post)"
        by simp
      then show ?thesis by blast
    next
      case False
      with l have "e = x" "c_address x \<notin> set (map c_address xs)"
        by (auto split: if_splits)
      then have "x # xs = [] @ e # xs \<and> c_address e \<notin> set (map c_address xs)" by simp
      then show ?thesis by blast
    qed
  next
    assume "\<exists>pre post. x # xs = pre @ e # post \<and> c_address e \<notin> set (map c_address post)"
    then obtain pre post where pp: "x # xs = pre @ e # post"
      "c_address e \<notin> set (map c_address post)" by blast
    show "e \<in> set (drop_duplicates_last (x # xs))"
    proof (cases pre)
      case Nil
      with pp show ?thesis by simp
    next
      case (Cons y pre')
      with pp have "xs = pre' @ e # post" by simp
      with pp(2) Cons.IH have "e \<in> set (drop_duplicates_last xs)" by blast
      then show ?thesis by simp
    qed
  qed
qed

lemma last_write_wins:
  assumes "e \<in> set results"
  shows "\<exists>e' pre post. results = pre @ e' # post \<and> c_address e' = c_address e \<and>
           c_address e \<notin> set (map c_address post) \<and>
           e' \<in> set (drop_duplicates_last (cache_df @ results))"
  using assms
proof (induction results rule: rev_induct)
  case Nil
  then show ?case by simp
next
  case (snoc x xs)
  show ?case
  proof (cases "c_address x = c_address e")
    case True
    have "cache_df @ xs @ [x] = (cache_df @ xs) @ x # [] \<and> c_address x \<notin> set (map c_address [])"
      by simp
    then have "x \<in> set (drop_duplicates_last (cache_df @ xs @ [x]))"
      unfolding in_drop_duplicates_last by blast
    moreover have "xs @ [x] = xs @ x # []" by simp
    ultimately show ?thesis using True
      by (intro exI[of _ x] exI[of _ xs] exI[of _ "[]"]) simp
  next
    case False
    with snoc.prems have "e \<in> set xs" by auto
    from snoc.IH[OF this] obtain e' pre post where ih:
      "xs = pre @ e' # post" "c_address e' = c_address e"
      "c_address e \<notin> set (map c_address post)"
      "e' \<in> set (drop_duplicates_last (cache_df @ xs))" by blast
    from ih(4) obtain p q where pq: "cache_df @ xs = p @ e' # q"
      "c_address e' \<notin> set (map c_address q)"
      unfolding in_drop_duplicates_last by blast
    have "cache_df @ xs @ [x] = p @ e' # (q @ [x]) \<and> c_address e' \<notin> set (map c_address (q @ [x]))"
      using pq ih(2) False by (simp add: append_eq_append_conv2)
    then have 4: "e' \<in> set (drop_duplicates_last (cache_df @ xs @ [x]))"
      unfolding in_drop_duplicates_last by blast
    have 1: "xs @ [x] = pre @ e' # (post @ [x])" using ih(1) by simp
    have 3: "c_address e \<notin> set (map c_address (post @ [x]))" using ih(3) False by simp
    show ?thesis
      by (rule exI[of _ e'], rule exI[of _ pre], rule exI[of _ "post @ [x]"])
         (intro conjI 1 ih(2) 3 4)
  qed
qed

lemma in_geocode_calls: "a \<in> set (geocode_calls ev) \<longleftrightarrow> Geocode a \<in> set ev"
  by (induction ev rule: geocode_calls.induct) auto

lemma main_no_key: "api_key = None \<or> api_key = Some [] \<Longrightarrow>
  main api_key xlsx cache_path gmaps p0 =
    \<lparr>ending = Exit 2, cache_on_disk = cache_path, final_de = None, final_at = None,
     after = \<lparr>pstate = p0, trace = []\<rparr>\<rparr>"
  by (auto simp: main_def Let_def)

lemma load_examples [simp]:
  "load_or_create_cache Absent = Inr []"
  "load_or_create_cache Unreadable = Inr []"
  "load_or_create_cache (Csv rows) = Inr rows"
  by (simp_all add: load_or_create_cache_def)

lemma save_cache_writable:
  "writable cache_path \<Longrightarrow>
     save_cache cache_df cache_path = Inr (Csv (drop_duplicates_last cache_df))"
  by (simp add: save_cache_def to_csv_def)

lemma save_cache_unwritable:
  "\<not> writable cache_path \<Longrightarrow> save_cache cache_df cache_path = Inl (OSError ''Permission denied'')"
  by (simp add: save_cache_def to_csv_def)

lemma main_rate_limited:
  assumes "api_key \<noteq> None" and "api_key \<noteq> Some []"
    and "parse_sheet xlsx ''dm DE'' ''Germany'' = Inr de_df"
    and "parse_sheet xlsx ''dm AT'' ''Austria'' = Inr at_df"
    and "load_or_create_cache cache_path = Inr cache_df"
    and "fetch_loop gmaps
           (to_fetch_of (concat (map (merge_row cache_df) (de_df @ at_df))))
           [] \<lparr>pstate = p0, trace = []\<rparr> = (RateLimited results, w)"
  shows "main api_key xlsx cache_path gmaps p0 =
           (case (if results \<noteq> [] then save_cache (cache_df @ results) cache_path
                  else Inr cache_path) of
              Inl e \<Rightarrow> \<lparr>ending = Traceback e, cache_on_disk = cache_path,
                         final_de = None, final_at = None, after = w\<rparr>
            | Inr disk \<Rightarrow> \<lparr>ending = Exit 3, cache_on_disk = disk,
                            final_de = None, final_at = None, after = w\<rparr>)"
proof -
  have ne: "de_df @ at_df \<noteq> []"
  proof
    assume "de_df @ at_df = []"
    with assms(6) show False by (simp add: to_fetch_of_def)
  qed
  show ?thesis
    using assms(1-5) ne assms(6)
    by (auto simp: main_def merge_left_def Let_def split: sum.splits)
qed

lemma main_completed:
  assumes "api_key \<noteq> None" and "api_key \<noteq> Some []"
    and "parse_sheet xlsx ''dm DE'' ''Germany'' = Inr de_df"
    and "parse_sheet xlsx ''dm AT'' ''Austria'' = Inr at_df"
    and "de_df @ at_df \<noteq> []"
    and "load_or_create_cache cache_path = Inr cache_df"
    and "fetch_loop gmaps
           (to_fetch_of (concat (map (merge_row cache_df) (de_df @ at_df))))
           [] \<lparr>pstate = p0, trace = []\<rparr> = (Completed results, w)"
  shows "main api_key xlsx cache_path gmaps p0 =
           (case (if results \<noteq> [] then save_cache (cache_df @ results) cache_path
                  else Inr cache_path) of
              Inl e \<Rightarrow> \<lparr>ending = Traceback e, cache_on_disk = cache_path,
                         final_de = None, final_at = None, after = w\<rparr>
            | Inr disk \<Rightarrow>
                \<lparr>ending = Exit 0, cache_on_disk = disk,
                 final_de = Some (filter (\<lambda>row. Country (fst row) = ''Germany'')
                         (concat (map (merge_row (if results \<noteq> [] then cache_df @ results
                                                  else cache_df))
                                      (de_df @ at_df)))),
                 final_at = Some (filter (\<lambda>row. Country (fst row) = ''Austria'')
                         (concat (map (merge_row (if results \<noteq> [] then cache_df @ results
                                                  else cache_df))
                                      (de_df @ at_df)))),
                 after = w\<rparr>)"
  using assms
  by (auto simp: main_def merge_left_def Let_def split: sum.splits)

lemma kept_when_distinct:
  assumes "e \<in> set results" and "distinct (map c_address results)"
  shows "e \<in> set (drop_duplicates_last (cache_df @ results))"
proof -
  from assms(1) obtain pre post where pp: "results = pre @ e # post"
    by (auto simp: in_set_conv_decomp)
  with assms(2) have "c_address e \<notin> set (map c_address post)" by auto
  moreover have "cache_df @ results = (cache_df @ pre) @ e # post" using pp by simp
  ultimately show ?thesis unfolding in_drop_duplicates_last by blast
qed

lemma parse_example_workbook [simp]:
  "parse_sheet example_workbook ''dm DE'' ''Germany'' = Inr [example_record]"
  "parse_sheet example_workbook ''dm AT'' ''Austria'' = Inr [bare_record]"
  by (simp_all add: example_workbook_def parse_sheet_def read_excel_def)

lemma to_fetch_no_cache:
  "to_fetch_of (concat (map (merge_row []) [example_record, bare_record])) =
     [''Hauptstr. 1, 76133 Karlsruhe, Germany'', ''Ring 2,  , Austria'']"
  by (simp add: to_fetch_of_def merge_row_def example_record_def bare_record_def)

lemma limited_loop:
  "fetch_loop scripted
     [''Hauptstr. 1, 76133 Karlsruhe, Germany'', ''Ring 2,  , Austria''] []
     \<lparr>pstate = limited_script, trace = []\<rparr> =
   (RateLimited [example_ok_entry],
    \<lparr>pstate = [],
     trace = [Geocode ''Hauptstr. 1, 76133 Karlsruhe, Germany'', Sleep,
              Geocode ''Ring 2,  , Austria'', Backoff 2, Geocode ''Ring 2,  , Austria'', Backoff 2,
              Geocode ''Ring 2,  , Austria'', Backoff 4, Geocode ''Ring 2,  , Austria'', Backoff 8,
              Geocode ''Ring 2,  , Austria'', Backoff 16, Geocode ''Ring 2,  , Austria'']\<rparr>)"
  by (simp add: loop_eval geocode_eval limited_script_def example_best_def example_ok_entry_def)

section \<open>Which records are fetched\<close>

lemma to_fetch_of_append [simp]: "to_fetch_of (xs @ ys) = to_fetch_of xs @ to_fetch_of ys"
  by (simp add: to_fetch_of_def)

lemma to_fetch_of_concat: "to_fetch_of (concat xss) = concat (map to_fetch_of xss)"
  by (induction xss) (simp_all add: to_fetch_of_def)

lemma to_fetch_of_merge_row:
  "set (to_fetch_of (merge_row cache_df r)) =
     (if (\<forall>e\<in>set cache_df. c_address e \<noteq> address_for_geocoding r) \<or>
         (\<exists>e\<in>set cache_df. c_address e = address_for_geocoding r \<and> latitude e = None)
      then {address_for_geocoding r} else {})"
proof (cases "filter (\<lambda>e. c_address e = address_for_geocoding r) cache_df")
  case Nil
  then have "\<forall>e\<in>set cache_df. c_address e \<noteq> address_for_geocoding r"
    by (simp add: filter_empty_conv)
  with Nil show ?thesis by (simp add: merge_row_def to_fetch_of_def)
next
  case (Cons x xs)
  let ?es = "filter (\<lambda>e. c_address e = address_for_geocoding r) cache_df"
  have m: "merge_row cache_df r = map (\<lambda>e. (r, Some e)) ?es"
    using Cons by (simp add: merge_row_def)
  have ex: "\<not> (\<forall>e\<in>set cache_df. c_address e \<noteq> address_for_geocoding r)"
  proof -
    have "x \<in> set ?es" using Cons by simp
    then show ?thesis by auto
  qed
  have "to_fetch_of (map (\<lambda>e. (r, Some e)) ?es) =
          map (\<lambda>e. address_for_geocoding r) (filter (\<lambda>e. latitude e = None) ?es)"
    by (induction cache_df) (simp_all add: to_fetch_of_def)
  then have "set (to_fetch_of (merge_row cache_df r)) =
               (if \<exists>e\<in>set ?es. latitude e = None then {address_for_geocoding r} else {})"
    unfolding m by (auto simp: filter_empty_conv)
  also have "\<dots> = (if \<exists>e\<in>set cache_df. c_address e = address_for_geocoding r \<and> latitude e = None
                     then {address_for_geocoding r} else {})"
    by auto
  finally show ?thesis using ex by simp
qed

lemma in_to_fetch:
  "a \<in> set (to_fetch_of (concat (map (merge_row cache_df) combined))) \<longleftrightarrow>
     (\<exists>r\<in>set combined. address_for_geocoding r = a) \<and>
     ((\<forall>e\<in>set cache_df. c_address e \<noteq> a) \<or>
      (\<exists>e\<in>set cache_df. c_address e = a \<and> latitude e = None))"
proof -
  have "a \<in> set (to_fetch_of (concat (map (merge_row cache_df) combined))) \<longleftrightarrow>
          (\<exists>r\<in>set combined. a \<in> set (to_fetch_of (merge_row cache_df r)))"
    by (simp add: to_fetch_of_concat)
  also have "\<dots> \<longleftrightarrow> (\<exists>r\<in>set combined. address_for_geocoding r = a \<and>
     ((\<forall>e\<in>set cache_df. c_address e \<noteq> a) \<or>
      (\<exists>e\<in>set cache_df. c_address e = a \<and> latitude e = None)))"
    unfolding to_fetch_of_merge_row by (auto split: if_splits)
  finally show ?thesis by auto
qed

lemma unique_entry:
  assumes "distinct (map c_address cache_df)"
    and "e \<in> set cache_df" and "e' \<in> set cache_df" and "c_address e = c_address e'"
  shows "e = e'"
  using assms by (meson distinct_map inj_onD)

lemma main_trace:
  assumes "api_key \<noteq> None" and "api_key \<noteq> Some []"
    and "parse_sheet xlsx ''dm DE'' ''Germany'' = Inr de_df"
    and "parse_sheet xlsx ''dm AT'' ''Austria'' = Inr at_df"
    and "de_df @ at_df \<noteq> []"
    and "load_or_create_cache cache_path = Inr cache_df"
    and "to_fetch = to_fetch_of (concat (map (merge_row cache_df) (de_df @ at_df)))"
    and "run = main api_key xlsx cache_path gmaps p0"
  shows "{a. Geocode a \<in> set (trace (after run))} \<subseteq> set to_fetch"
    and "ending run = Exit 0 \<longrightarrow> {a. Geocode a \<in> set (trace (after run))} = set to_fetch"
    and "ending run = Exit 0 \<or> ending run = Exit 3 \<or>
         (\<not> writable cache_path \<and> ending run = Traceback (OSError ''Permission denied''))"
proof -
  let ?w0 = "\<lparr>pstate = p0, trace = []\<rparr>"
  obtain le w where loop: "fetch_loop gmaps to_fetch [] ?w0 = (le, w)"
    by (cases "fetch_loop gmaps to_fetch [] ?w0")
  have all: "{a. Geocode a \<in> set (trace (after run))} \<subseteq> set to_fetch \<and>
    (ending run = Exit 0 \<longrightarrow> {a. Geocode a \<in> set (trace (after run))} = set to_fetch) \<and>
    (ending run = Exit 0 \<or> ending run = Exit 3 \<or>
         (\<not> writable cache_path \<and> ending run = Traceback (OSError ''Permission denied'')))"
  proof (cases le)
    case (Completed results)
    with loop have l: "fetch_loop gmaps to_fetch [] ?w0 = (Completed results, w)" by simp
    from fetch_loop_Completed[OF l]
    have calls: "set (geocode_calls (trace w)) = set to_fetch" by auto
    note m = main_completed[OF assms(1-6) l[unfolded assms(7)]]
    have a: "after run = w"
      unfolding assms(8) m by (simp split: sum.splits)
    have e: "ending run = Exit 0 \<or>
         (\<not> writable cache_path \<and> ending run = Traceback (OSError ''Permission denied''))"
    proof (cases "results = [] \<or> writable cache_path")
      case True
      then show ?thesis unfolding assms(8) m by (auto simp: save_cache_writable)
    next
      case False
      then show ?thesis unfolding assms(8) m by (auto simp: save_cache_unwritable)
    qed
    from calls a e show ?thesis by (auto simp: in_geocode_calls[symmetric])
  next
    case (RateLimited results)
    with loop have l: "fetch_loop gmaps to_fetch [] ?w0 = (RateLimited results, w)" by simp
    from fetch_loop_RateLimited[OF l]
    have calls: "set (geocode_calls (trace w)) \<subseteq> set to_fetch" by auto
    note m = main_rate_limited[OF assms(1-4,6) l[unfolded assms(7)]]
    have a: "after run = w"
      unfolding assms(8) m by (simp split: sum.splits)
    have e: "ending run = Exit 3 \<or>
         (\<not> writable cache_path \<and> ending run = Traceback (OSError ''Permission denied''))"
    proof (cases "results = [] \<or> writable cache_path")
      case True
      then show ?thesis unfolding assms(8) m by (auto simp: save_cache_writable)
    next
      case False
      then show ?thesis unfolding assms(8) m by (auto simp: save_cache_unwritable)
    qed
    from calls a e show ?thesis by (auto simp: in_geocode_calls[symmetric])
  qed
  show "{a. Geocode a \<in> set (trace (after run))} \<subseteq> set to_fetch"
    and "ending run = Exit 0 \<longrightarrow> {a. Geocode a \<in> set (trace (after run))} = set to_fetch"
    and "ending run = Exit 0 \<or> ending run = Exit 3 \<or>
         (\<not> writable cache_path \<and> ending run = Traceback (OSError ''Permission denied''))"
    using all by blast+
qed

text \<open>
  Claim C2, as the code has it. For an extracted record with query string \<open>a\<close>, call it
  a miss when the loaded cache has no entry for \<open>a\<close>, or has an entry for \<open>a\<close> whose
  latitude is null. The provider is called for \<open>a\<close> only if the record is a miss. In a
  run that ends normally (exit code 0) it is called for \<open>a\<close> if and only if the record is
  a miss; the only other endings, once the sheets are read and the cache is loaded, are
  the rate-limit exit 3, which leaves the misses after the failing one uncalled, and the
  exception of a cache file that cannot be written. When the loaded cache has at most one
  entry per query string, being a miss is the same as having no entry with a non-null
  latitude. A record all of whose cached entries have a latitude causes no call at all,
  while an entry with a null latitude (\<open>NOT_FOUND\<close>, \<open>ERROR\<close>) makes the record a miss
  again in every run.
\<close>

theorem C2_provider_called_for_misses:
  assumes "api_key \<noteq> None" and "api_key \<noteq> Some []"
    and "parse_sheet xlsx ''dm DE'' ''Germany'' = Inr de_df"
    and "parse_sheet xlsx ''dm AT'' ''Austria'' = Inr at_df"
    and "load_or_create_cache cache_path = Inr cache_df"
    and "run = main api_key xlsx cache_path gmaps p0"
    and "r \<in> set (de_df @ at_df)"
    and "a = address_for_geocoding r"
  shows "(Geocode a \<in> set (trace (after run)) \<longrightarrow>
            (\<forall>e\<in>set cache_df. c_address e \<noteq> a) \<or>
            (\<exists>e\<in>set cache_df. c_address e = a \<and> latitude e = None))
       \<and> (ending run = Exit 0 \<longrightarrow>
            (Geocode a \<in> set (trace (after run)) \<longleftrightarrow>
               (\<forall>e\<in>set cache_df. c_address e \<noteq> a) \<or>
               (\<exists>e\<in>set cache_df. c_address e = a \<and> latitude e = None)))
       \<and> (ending run = Exit 0 \<or> ending run = Exit 3 \<or>
            (\<not> writable cache_path \<and> ending run = Traceback (OSError ''Permission denied'')))
       \<and> (distinct (map c_address cache_df) \<longrightarrow>
            ((\<forall>e\<in>set cache_df. c_address e \<noteq> a) \<or>
             (\<exists>e\<in>set cache_df. c_address e = a \<and> latitude e = None)
             \<longleftrightarrow> \<not> (\<exists>e\<in>set cache_df. c_address e = a \<and> latitude e \<noteq> None)))
       \<and> ((\<exists>e\<in>set cache_df. c_address e = a) \<and>
           (\<forall>e\<in>set cache_df. c_address e = a \<longrightarrow> latitude e \<noteq> None) \<longrightarrow>
            Geocode a \<notin> set (trace (after run)))"
proof -
  let ?miss = "(\<forall>e\<in>set cache_df. c_address e \<noteq> a) \<or>
               (\<exists>e\<in>set cache_df. c_address e = a \<and> latitude e = None)"
  let ?to_fetch = "to_fetch_of (concat (map (merge_row cache_df) (de_df @ at_df)))"
  have ne: "de_df @ at_df \<noteq> []" using assms(7) by auto
  have mem: "a \<in> set ?to_fetch \<longleftrightarrow> ?miss"
    unfolding in_to_fetch using assms(7,8) by auto
  note tr = main_trace[OF assms(1-4) ne assms(5) refl assms(6)]
  have 1: "Geocode a \<in> set (trace (after run)) \<longrightarrow> ?miss"
    using tr(1) mem by auto
  have 2: "ending run = Exit 0 \<longrightarrow> (Geocode a \<in> set (trace (after run)) \<longleftrightarrow> ?miss)"
    using tr(2) mem by auto
  have 3: "ending run = Exit 0 \<or> ending run = Exit 3 \<or>
            (\<not> writable cache_path \<and> ending run = Traceback (OSError ''Permission denied''))"
    by (rule tr(3))
  have 4: "distinct (map c_address cache_df) \<longrightarrow>
            (?miss \<longleftrightarrow> \<not> (\<exists>e\<in>set cache_df. c_address e = a \<and> latitude e \<noteq> None))"
  proof
    assume d: "distinct (map c_address cache_df)"
    show "?miss \<longleftrightarrow> \<not> (\<exists>e\<in>set cache_df. c_address e = a \<and> latitude e \<noteq> None)"
    proof
      assume m: ?miss
      show "\<not> (\<exists>e\<in>set cache_df. c_address e = a \<and> latitude e \<noteq> None)"
      proof
        assume "\<exists>e\<in>set cache_df. c_address e = a \<and> latitude e \<noteq> None"
        then obtain e where e: "e \<in> set cache_df" "c_address e = a" "latitude e \<noteq> None"
          by blast
        with m obtain e' where e': "e' \<in> set cache_df" "c_address e' = a" "latitude e' = None"
          by blast
        from unique_entry[OF d e(1) e'(1)] e(2) e'(2) have "e = e'" by simp
        with e(3) e'(3) show False by simp
      qed
    next
      assume "\<not> (\<exists>e\<in>set cache_df. c_address e = a \<and> latitude e \<noteq> None)"
      then show ?miss by blast
    qed
  qed
  have 5: "(\<exists>e\<in>set cache_df. c_address e = a) \<and>
           (\<forall>e\<in>set cache_df. c_address e = a \<longrightarrow> latitude e \<noteq> None) \<longrightarrow>
            Geocode a \<notin> set (trace (after run))"
    using 1 by blast
  show ?thesis by (intro conjI 1 2 3 4 5)
qed

lemma address_examples [simp]:
  "address_for_geocoding example_record = ''Hauptstr. 1, 76133 Karlsruhe, Germany''"
  "address_for_geocoding bare_record = ''Ring 2,  , Austria''"
  by (simp_all add: example_record_def bare_record_def)

lemma to_fetch_example_cache:
  "to_fetch_of (concat (map (merge_row example_cache) ([example_record] @ [bare_record]))) =
     [''Ring 2,  , Austria'']"
  by (simp add: to_fetch_of_def merge_row_def example_cache_def example_ok_entry_def
      not_found_entry_def)

lemma refetch_loop:
  "fetch_loop scripted [''Ring 2,  , Austria''] [] \<lparr>pstate = [Returns []], trace = []\<rparr> =
     (Completed [not_found_entry ''Ring 2,  , Austria''],
      \<lparr>pstate = [], trace = [Geocode ''Ring 2,  , Austria'', Sleep]\<rparr>)"
  by (simp add: loop_eval geocode_eval)

theorem C2_provider_called_for_misses_witness:
  "ending (main (Some ''key'') example_workbook (Csv example_cache) scripted [Returns []]) = Exit 0
   \<and> Geocode ''Ring 2,  , Austria''
       \<in> set (trace (after (main (Some ''key'') example_workbook (Csv example_cache) scripted
                               [Returns []])))
   \<and> Geocode ''Hauptstr. 1, 76133 Karlsruhe, Germany''
       \<notin> set (trace (after (main (Some ''key'') example_workbook (Csv example_cache) scripted
                               [Returns []])))"
proof -
  let ?run = "main (Some ''key'') example_workbook (Csv example_cache) scripted [Returns []]"
  have k: "Some ''key'' \<noteq> None" "Some ''key'' \<noteq> Some []" by simp_all
  have c: "load_or_create_cache (Csv example_cache) = Inr example_cache" by simp
  have ne: "[example_record] @ [bare_record] \<noteq> []" by simp
  have loop: "fetch_loop scripted
      (to_fetch_of (concat (map (merge_row example_cache)
                                ([example_record] @ [bare_record]))))
      [] \<lparr>pstate = [Returns []], trace = []\<rparr> =
     (Completed [not_found_entry ''Ring 2,  , Austria''],
      \<lparr>pstate = [], trace = [Geocode ''Ring 2,  , Austria'', Sleep]\<rparr>)"
    using refetch_loop to_fetch_example_cache by simp
  have e: "ending ?run = Exit 0"
    using main_completed[OF k parse_example_workbook ne c loop]
    by (simp add: save_cache_writable)
  have b: "bare_record \<in> set ([example_record] @ [bare_record])" by simp
  have a: "example_record \<in> set ([example_record] @ [bare_record])" by simp
  have miss: "\<exists>x\<in>set example_cache. c_address x = ''Ring 2,  , Austria'' \<and> latitude x = None"
    by (simp add: example_cache_def not_found_entry_def)
  have hit: "(\<exists>x\<in>set example_cache. c_address x = ''Hauptstr. 1, 76133 Karlsruhe, Germany'') \<and>
             (\<forall>x\<in>set example_cache. c_address x = ''Hauptstr. 1, 76133 Karlsruhe, Germany''
                 \<longrightarrow> latitude x \<noteq> None)"
    by (simp add: example_cache_def not_found_entry_def example_ok_entry_def)
  show ?thesis
    using C2_provider_called_for_misses[OF k parse_example_workbook c refl b refl, of scripted
            "[Returns []]"]
          C2_provider_called_for_misses[OF k parse_example_workbook c refl a refl, of scripted
            "[Returns []]"]
          e miss hit
    by simp
qed

lemma always_limited_loop:
  "fetch_loop always_limited
     [''Hauptstr. 1, 76133 Karlsruhe, Germany'', ''Ring 2,  , Austria''] []
     \<lparr>pstate = (), trace = []\<rparr> =
   (RateLimited [],
    \<lparr>pstate = (),
     trace = [Geocode ''Hauptstr. 1, 76133 Karlsruhe, Germany'', Backoff 2,
              Geocode ''Hauptstr. 1, 76133 Karlsruhe, Germany'', Backoff 2,
              Geocode ''Hauptstr. 1, 76133 Karlsruhe, Germany'', Backoff 4,
              Geocode ''Hauptstr. 1, 76133 Karlsruhe, Germany'', Backoff 8,
              Geocode ''Hauptstr. 1, 76133 Karlsruhe, Germany'', Backoff 16,
              Geocode ''Hauptstr. 1, 76133 Karlsruhe, Germany'']\<rparr>)"
  by (simp add: loop_eval geocode_eval always_limited_def)

text \<open>
  Claim C2 as stated fails: with no cache file and a provider that signals the rate limit
  on every attempt, the record of the Austrian sheet is extracted, the loaded cache is
  empty, so it has no entry with a latitude for that record, and yet the provider is never
  called for it, because the run stops at the first address.
\<close>

theorem C2_second_miss_never_called:
  "parse_sheet example_workbook ''dm AT'' ''Austria'' = Inr [bare_record]
   \<and> load_or_create_cache Absent = Inr []
   \<and> Geocode (address_for_geocoding bare_record)
       \<notin> set (trace (after (main (Some ''key'') example_workbook Absent always_limited ())))"
proof -
  have k: "Some ''key'' \<noteq> None" "Some ''key'' \<noteq> Some []" by simp_all
  have loop: "fetch_loop always_limited
      (to_fetch_of (concat (map (merge_row [])
                                ([example_record] @ [bare_record]))))
      [] \<lparr>pstate = (), trace = []\<rparr> =
   (RateLimited [],
    \<lparr>pstate = (),
     trace = [Geocode ''Hauptstr. 1, 76133 Karlsruhe, Germany'', Backoff 2,
              Geocode ''Hauptstr. 1, 76133 Karlsruhe, Germany'', Backoff 2,
              Geocode ''Hauptstr. 1, 76133 Karlsruhe, Germany'', Backoff 4,
              Geocode ''Hauptstr. 1, 76133 Karlsruhe, Germany'', Backoff 8,
              Geocode ''Hauptstr. 1, 76133 Karlsruhe, Germany'', Backoff 16,
              Geocode ''Hauptstr. 1, 76133 Karlsruhe, Germany'']\<rparr>)"
    using always_limited_loop to_fetch_no_cache by simp
  show ?thesis
    using main_rate_limited[OF k parse_example_workbook load_examples(1) loop] by simp
qed

section \<open>The final join\<close>

lemma refetch_both_loop:
  "fetch_loop scripted
     [''Hauptstr. 1, 76133 Karlsruhe, Germany'', ''Ring 2,  , Austria''] []
     \<lparr>pstate = [Returns [example_best], Returns [example_best]], trace = []\<rparr> =
   (Completed [example_ok_entry, example_ok_entry\<lparr>c_address := ''Ring 2,  , Austria''\<rparr>],
    \<lparr>pstate = [],
     trace = [Geocode ''Hauptstr. 1, 76133 Karlsruhe, Germany'', Sleep,
              Geocode ''Ring 2,  , Austria'', Sleep]\<rparr>)"
  by (simp add: loop_eval geocode_eval example_best_def example_ok_entry_def)

lemma to_fetch_stale_cache:
  "to_fetch_of (concat (map (merge_row [not_found_entry ''Ring 2,  , Austria''])
                            ([example_record] @ [bare_record]))) =
     [''Hauptstr. 1, 76133 Karlsruhe, Germany'', ''Ring 2,  , Austria'']"
  by (simp add: to_fetch_of_def merge_row_def not_found_entry_def)

text \<open>
  Claim C1 on the code. The cache file holds a \<open>NOT_FOUND\<close> entry, with null
  coordinates, for the address of the one Austrian record, and the provider now finds the
  address. \<open>save_cache\<close> drops the stale entry from the file, which ends with one entry
  per query string; the final merge joins against the frame in memory, where the stale
  entry is still followed by the new one, and the Austrian sheet gets two rows for the
  one record.
\<close>

theorem C1_refetched_record_has_two_rows:
  "parse_sheet example_workbook ''dm AT'' ''Austria'' = Inr [bare_record]
   \<and> final_at (main (Some ''key'') example_workbook
                 (Csv [not_found_entry ''Ring 2,  , Austria'']) scripted
                 [Returns [example_best], Returns [example_best]])
       = Some [(bare_record, Some (not_found_entry ''Ring 2,  , Austria'')),
               (bare_record, Some (example_ok_entry\<lparr>c_address := ''Ring 2,  , Austria''\<rparr>))]
   \<and> cache_on_disk (main (Some ''key'') example_workbook
                 (Csv [not_found_entry ''Ring 2,  , Austria'']) scripted
                 [Returns [example_best], Returns [example_best]])
       = Csv [example_ok_entry, example_ok_entry\<lparr>c_address := ''Ring 2,  , Austria''\<rparr>]"
proof -
  have k: "Some ''key'' \<noteq> None" "Some ''key'' \<noteq> Some []" by simp_all
  have ne: "[example_record] @ [bare_record] \<noteq> []" by simp
  have loop: "fetch_loop scripted
      (to_fetch_of (concat (map (merge_row [not_found_entry ''Ring 2,  , Austria''])
                                ([example_record] @ [bare_record]))))
      [] \<lparr>pstate = [Returns [example_best], Returns [example_best]], trace = []\<rparr> =
   (Completed [example_ok_entry, example_ok_entry\<lparr>c_address := ''Ring 2,  , Austria''\<rparr>],
    \<lparr>pstate = [],
     trace = [Geocode ''Hauptstr. 1, 76133 Karlsruhe, Germany'', Sleep,
              Geocode ''Ring 2,  , Austria'', Sleep]\<rparr>)"
    using refetch_both_loop to_fetch_stale_cache by simp
  show ?thesis
    using main_completed[OF k parse_example_workbook ne load_examples(3) loop]
    by (simp add: merge_row_def save_cache_writable not_found_entry_def example_ok_entry_def
        example_record_def bare_record_def)
qed

section \<open>The abort on rate-limit exhaustion\<close>

lemma fetch_loop_append:
  assumes "fetch_loop gmaps pre results w = (Completed rs, w1)"
  shows "fetch_loop gmaps (pre @ rest) results w = fetch_loop gmaps rest rs w1"
  using assms
proof (induction pre arbitrary: results w)
  case Nil
  then show ?case by simp
next
  case (Cons a pre)
  obtain r w2 where g: "geocode_one gmaps a w = (r, w2)" by (cases "geocode_one gmaps a w")
  show ?case
  proof (cases "retry_if_rate_limit r")
    case True
    then obtain m where "r = Inl (RateLimitError m)" by (auto simp: retry_if_rate_limit_iff)
    with g have "fetch_loop gmaps (a # pre) results w = (RateLimited results, w2)"
      using fetch_loop_abort by blast
    with Cons.prems show ?thesis by simp
  next
    case False
    from fetch_loop_continue[OF g False] Cons.prems
    have "fetch_loop gmaps pre (results @ [entry_for a r]) (sleep w2) = (Completed rs, w1)"
      by simp
    from Cons.IH[OF this]
    have "fetch_loop gmaps (pre @ rest) (results @ [entry_for a r]) (sleep w2) =
            fetch_loop gmaps rest rs w1" .
    then show ?thesis
      using fetch_loop_continue[OF g False, of "pre @ rest" results] by simp
  qed
qed

lemma fetch_loop_stops_at:
  assumes "fetch_loop gmaps pre [] w0 = (Completed results, w1)"
    and "geocode_one gmaps a w1 = (Inl (RateLimitError m), w)"
  shows "fetch_loop gmaps (pre @ a # post) [] w0 = (RateLimited results, w)"
  unfolding fetch_loop_append[OF assms(1)]
  by (rule fetch_loop_abort[OF assms(2)])

text \<open>
  Claim C4, as the code has it. The misses before an address have been processed, with
  \<open>results\<close> accumulated, and \<open>geocode_one\<close> raises \<open>RateLimitError\<close> for that
  address, after its six attempts. The run hands the loaded cache followed by
  \<open>results\<close> to \<open>save_cache\<close>, which keeps one entry per query string, the last
  written: each accumulated entry has its query string in the file, held by the entry
  accumulated last for it, and when the accumulated query strings differ every
  accumulated entry is in the file. With nothing accumulated the file is left as it was.
  Where the file can be written, the run then exits with code 3, which is neither 0 nor
  the 2 of a missing key, and it stops there: no output sheet is written, the entries
  accumulated are those of the addresses before the failing one, and the last thing that
  happened is the sixth call of the provider for the failing address.
\<close>

theorem C4_rate_limit_abort:
  assumes "api_key \<noteq> None" and "api_key \<noteq> Some []"
    and "parse_sheet xlsx ''dm DE'' ''Germany'' = Inr de_df"
    and "parse_sheet xlsx ''dm AT'' ''Austria'' = Inr at_df"
    and "load_or_create_cache cache_path = Inr cache_df"
    and "to_fetch_of (concat (map (merge_row cache_df) (de_df @ at_df))) = pre @ a # post"
    and "fetch_loop gmaps pre [] \<lparr>pstate = p0, trace = []\<rparr> = (Completed results, w1)"
    and "geocode_one gmaps a w1 = (Inl (RateLimitError m), w)"
    and "results = [] \<or> writable cache_path"
    and "run = main api_key xlsx cache_path gmaps p0"
  shows "ending run = Exit 3 \<and> ending run \<noteq> Exit 0 \<and> ending run \<noteq> Exit 2
       \<and> ending (main None xlsx cache_path gmaps p0) = Exit 2
       \<and> cache_on_disk run =
             (if results = [] then cache_path
              else Csv (drop_duplicates_last (cache_df @ results)))
       \<and> (\<forall>e\<in>set results. \<exists>rows e' pre' post'.
             cache_on_disk run = Csv rows \<and> e' \<in> set rows \<and> c_address e' = c_address e \<and>
             results = pre' @ e' # post' \<and> c_address e \<notin> set (map c_address post'))
       \<and> (distinct (map c_address results) \<longrightarrow>
             (\<forall>e\<in>set results. \<exists>rows. cache_on_disk run = Csv rows \<and> e \<in> set rows))
       \<and> map c_address results = pre
       \<and> final_de run = None \<and> final_at run = None \<and> after run = w
       \<and> (\<exists>ev. trace w = trace w1 @ ev \<and> geocode_calls ev = replicate 6 a \<and>
                last ev = Geocode a)"
proof -
  have loop: "fetch_loop gmaps (to_fetch_of (concat (map (merge_row cache_df) (de_df @ at_df))))
                [] \<lparr>pstate = p0, trace = []\<rparr> = (RateLimited results, w)"
    unfolding assms(6) by (rule fetch_loop_stops_at[OF assms(7,8)])
  have run: "run = \<lparr>ending = Exit 3,
            cache_on_disk = (if results = [] then cache_path
                             else Csv (drop_duplicates_last (cache_df @ results))),
            final_de = None, final_at = None, after = w\<rparr>"
    unfolding assms(10) main_rate_limited[OF assms(1-5) loop]
    using assms(9) by (auto simp: save_cache_writable)
  have 1: "ending run = Exit 3 \<and> ending run \<noteq> Exit 0 \<and> ending run \<noteq> Exit 2"
    by (simp add: run)
  have 2: "ending (main None xlsx cache_path gmaps p0) = Exit 2"
    by (simp add: main_no_key)
  have 3: "cache_on_disk run =
             (if results = [] then cache_path
              else Csv (drop_duplicates_last (cache_df @ results)))"
    by (simp add: run)
  have 4: "\<exists>rows e' pre' post'.
             cache_on_disk run = Csv rows \<and> e' \<in> set rows \<and> c_address e' = c_address e \<and>
             results = pre' @ e' # post' \<and> c_address e \<notin> set (map c_address post')"
    if e: "e \<in> set results" for e
  proof -
    from e have ne: "results \<noteq> []" by auto
    from last_write_wins[OF e, of cache_df] obtain e' pre' post' where l:
      "results = pre' @ e' # post'" "c_address e' = c_address e"
      "c_address e \<notin> set (map c_address post')"
      "e' \<in> set (drop_duplicates_last (cache_df @ results))" by blast
    have d: "cache_on_disk run = Csv (drop_duplicates_last (cache_df @ results))"
      using 3 ne by simp
    show ?thesis
      by (rule exI[of _ "drop_duplicates_last (cache_df @ results)"], rule exI[of _ e'],
          rule exI[of _ pre'], rule exI[of _ post']) (intro conjI d l(4) l(2) l(1) l(3))
  qed
  have 5: "\<exists>rows. cache_on_disk run = Csv rows \<and> e \<in> set rows"
    if "distinct (map c_address results)" and e: "e \<in> set results" for e
  proof -
    from e have ne: "results \<noteq> []" by auto
    have d: "cache_on_disk run = Csv (drop_duplicates_last (cache_df @ results))"
      using 3 ne by simp
    show ?thesis
      by (rule exI[of _ "drop_duplicates_last (cache_df @ results)"])
         (intro conjI d kept_when_distinct[OF e that(1)])
  qed
  have 6: "final_de run = None \<and> final_at run = None \<and> after run = w"
    by (simp add: run)
  have 7: "map c_address results = pre"
    using fetch_loop_Completed[OF assms(7)] by auto
  have 8: "\<exists>ev. trace w = trace w1 @ ev \<and> geocode_calls ev = replicate 6 a \<and>
                last ev = Geocode a"
  proof -
    from assms(8) have "geocode_retry gmaps a 1 w1 = (Inl (RateLimitError m), w)"
      by (simp add: geocode_one_def)
    from geocode_retry_events[OF this] obtain ev where ev:
      "trace w = trace w1 @ ev" "geocode_calls ev = replicate (length (geocode_calls ev)) a"
      "length (geocode_calls ev) = 6" "last ev = Geocode a"
      by auto
    have c: "geocode_calls ev = replicate 6 a" using ev(2,3) by simp
    show ?thesis
      by (rule exI[of _ ev]) (intro conjI ev(1) c ev(4))
  qed
  have all4: "\<forall>e\<in>set results. \<exists>rows e' pre' post'.
             cache_on_disk run = Csv rows \<and> e' \<in> set rows \<and> c_address e' = c_address e \<and>
             results = pre' @ e' # post' \<and> c_address e \<notin> set (map c_address post')"
    by (intro ballI 4)
  have all5: "distinct (map c_address results) \<longrightarrow>
             (\<forall>e\<in>set results. \<exists>rows. cache_on_disk run = Csv rows \<and> e \<in> set rows)"
  proof (intro impI ballI)
    fix e
    assume "distinct (map c_address results)" and "e \<in> set results"
    then show "\<exists>rows. cache_on_disk run = Csv rows \<and> e \<in> set rows" by (rule 5)
  qed
  show ?thesis
    by (intro conjI 1[THEN conjunct1] 1[THEN conjunct2, THEN conjunct1]
        1[THEN conjunct2, THEN conjunct2] 2 3 all4 all5 7 6[THEN conjunct1]
        6[THEN conjunct2, THEN conjunct1] 6[THEN conjunct2, THEN conjunct2] 8)
qed

lemma parse_twin_workbook [simp]:
  "parse_sheet twin_workbook ''dm DE'' ''Germany'' = Inr [example_record, twin_record]"
  "parse_sheet twin_workbook ''dm AT'' ''Austria'' = Inr [wien_record]"
  by (simp_all add: twin_workbook_def parse_sheet_def read_excel_def)

lemma to_fetch_twins:
  "to_fetch_of (concat (map (merge_row []) ([example_record, twin_record] @ [wien_record]))) =
     [''Hauptstr. 1, 76133 Karlsruhe, Germany'', ''Hauptstr. 1, 76133 Karlsruhe, Germany'']
       @ ''Graben 1, 1010 Wien, Austria'' # []"
  by (simp add: to_fetch_of_def merge_row_def example_record_def twin_record_def wien_record_def)

lemma twin_loop:
  "fetch_loop scripted
     [''Hauptstr. 1, 76133 Karlsruhe, Germany'', ''Hauptstr. 1, 76133 Karlsruhe, Germany''] []
     \<lparr>pstate = twin_script, trace = []\<rparr> =
   (Completed [example_ok_entry, not_found_entry ''Hauptstr. 1, 76133 Karlsruhe, Germany''],
    \<lparr>pstate = [Raises ''OVER_QUERY_LIMIT'', Raises ''OVER_QUERY_LIMIT'',
               Raises ''OVER_QUERY_LIMIT'', Raises ''OVER_QUERY_LIMIT'',
               Raises ''OVER_QUERY_LIMIT'', Raises ''OVER_QUERY_LIMIT''],
     trace = [Geocode ''Hauptstr. 1, 76133 Karlsruhe, Germany'', Sleep,
              Geocode ''Hauptstr. 1, 76133 Karlsruhe, Germany'', Sleep]\<rparr>)"
  by (simp add: loop_eval geocode_eval twin_script_def example_best_def example_ok_entry_def)

lemma twin_exhausted:
  "geocode_one scripted ''Graben 1, 1010 Wien, Austria''
     \<lparr>pstate = [Raises ''OVER_QUERY_LIMIT'', Raises ''OVER_QUERY_LIMIT'',
                Raises ''OVER_QUERY_LIMIT'', Raises ''OVER_QUERY_LIMIT'',
                Raises ''OVER_QUERY_LIMIT'', Raises ''OVER_QUERY_LIMIT''],
      trace = [Geocode ''Hauptstr. 1, 76133 Karlsruhe, Germany'', Sleep,
               Geocode ''Hauptstr. 1, 76133 Karlsruhe, Germany'', Sleep]\<rparr> =
   (Inl (RateLimitError ''OVER_QUERY_LIMIT''),
    \<lparr>pstate = [],
     trace = [Geocode ''Hauptstr. 1, 76133 Karlsruhe, Germany'', Sleep,
              Geocode ''Hauptstr. 1, 76133 Karlsruhe, Germany'', Sleep,
              Geocode ''Graben 1, 1010 Wien, Austria'', Backoff 2,
              Geocode ''Graben 1, 1010 Wien, Austria'', Backoff 2,
              Geocode ''Graben 1, 1010 Wien, Austria'', Backoff 4,
              Geocode ''Graben 1, 1010 Wien, Austria'', Backoff 8,
              Geocode ''Graben 1, 1010 Wien, Austria'', Backoff 16,
              Geocode ''Graben 1, 1010 Wien, Austria'']\<rparr>)"
  by (simp add: geocode_eval)

theorem C4_rate_limit_abort_witness:
  "ending (main (Some ''key'') twin_workbook Absent scripted twin_script) = Exit 3
   \<and> cache_on_disk (main (Some ''key'') twin_workbook Absent scripted twin_script)
       = Csv [not_found_entry ''Hauptstr. 1, 76133 Karlsruhe, Germany'']
   \<and> final_de (main (Some ''key'') twin_workbook Absent scripted twin_script) = None
   \<and> last (trace (after (main (Some ''key'') twin_workbook Absent scripted twin_script)))
       = Geocode ''Graben 1, 1010 Wien, Austria''"
proof -
  have k: "Some ''key'' \<noteq> None" "Some ''key'' \<noteq> Some []" by simp_all
  have wr: "[example_ok_entry, not_found_entry ''Hauptstr. 1, 76133 Karlsruhe, Germany''] = []
            \<or> writable Absent" by simp
  show ?thesis
    using C4_rate_limit_abort[OF k parse_twin_workbook load_examples(1) to_fetch_twins twin_loop
            twin_exhausted wr refl]
    by (simp add: not_found_entry_def example_ok_entry_def)
qed

text \<open>
  Claim C4 as stated fails. Two rows of the German sheet have the same address. The
  provider finds it for the first and finds nothing for the second, then signals the rate
  limit for the Austrian address. Two entries have been accumulated, the first with status
  \<open>OK\<close>; the run exits with code 3, and the file holds the \<open>NOT_FOUND\<close> entry only.
\<close>

theorem C4_accumulated_entry_not_saved:
  "parse_sheet twin_workbook ''dm DE'' ''Germany'' = Inr [example_record, twin_record]
   \<and> fst (fetch_loop scripted
            (to_fetch_of (concat (map (merge_row [])
                                      ([example_record, twin_record] @ [wien_record]))))
            [] \<lparr>pstate = twin_script, trace = []\<rparr>)
       = RateLimited [example_ok_entry,
                      not_found_entry ''Hauptstr. 1, 76133 Karlsruhe, Germany'']
   \<and> ending (main (Some ''key'') twin_workbook Absent scripted twin_script) = Exit 3
   \<and> cache_on_disk (main (Some ''key'') twin_workbook Absent scripted twin_script)
       = Csv [not_found_entry ''Hauptstr. 1, 76133 Karlsruhe, Germany'']
   \<and> example_ok_entry \<notin> set [not_found_entry ''Hauptstr. 1, 76133 Karlsruhe, Germany'']"
proof -
  have k: "Some ''key'' \<noteq> None" "Some ''key'' \<noteq> Some []" by simp_all
  note loop = fetch_loop_stops_at[OF twin_loop twin_exhausted, of "[]",
      folded to_fetch_twins]
  show ?thesis
    using loop main_rate_limited[OF k parse_twin_workbook load_examples(1) loop]
    by (simp add: save_cache_writable not_found_entry_def example_ok_entry_def)
qed

section \<open>Loading the cache\<close>

lemma to_fetch_empty_cache:
  "to_fetch_of (concat (map (merge_row []) combined)) = map address_for_geocoding combined"
  by (induction combined) (simp_all add: merge_row_def to_fetch_of_def)

lemma load_fails_soft:
  "exists_file cache_path = Inr b \<Longrightarrow> \<not> b \<or> (\<exists>e. read_csv cache_path = Inl e) \<Longrightarrow>
     load_or_create_cache cache_path = Inr []"
  by (auto simp: load_or_create_cache_def split: bool.splits)

lemma main_same_cache:
  assumes "load_or_create_cache c1 = load_or_create_cache c2"
  shows "after (main api_key xlsx c1 gmaps p0) = after (main api_key xlsx c2 gmaps p0)"
    and "writable c1 \<Longrightarrow> writable c2 \<Longrightarrow>
         ending (main api_key xlsx c1 gmaps p0) = ending (main api_key xlsx c2 gmaps p0)"
    and "writable c1 \<Longrightarrow> writable c2 \<Longrightarrow>
         final_de (main api_key xlsx c1 gmaps p0) = final_de (main api_key xlsx c2 gmaps p0)"
    and "writable c1 \<Longrightarrow> writable c2 \<Longrightarrow>
         final_at (main api_key xlsx c1 gmaps p0) = final_at (main api_key xlsx c2 gmaps p0)"
    and "writable c1 \<Longrightarrow> writable c2 \<Longrightarrow>
         cache_on_disk (main api_key xlsx c1 gmaps p0) = c1 \<or>
         cache_on_disk (main api_key xlsx c1 gmaps p0) = cache_on_disk (main api_key xlsx c2 gmaps p0)"
  using assms
  by (auto simp: main_def Let_def save_cache_def to_csv_def
      split: sum.splits prod.splits loop_end.splits)

text \<open>
  Claim C7, as the code has it. On a path whose existence test returns,
  \<open>load_or_create_cache\<close> raises nothing: when the file is absent, or \<open>pd.read_csv\<close>
  raises on it, the result is the empty frame. In the run that follows every extracted
  record is a miss, and the provider is called as in the run with no cache file. Where
  the path can be written, the run also ends as that run does, with the same output
  sheets, and the file at \<open>cache_path\<close> is either untouched or holds what the run
  without a cache file would have written.
\<close>

theorem C7_cache_load_fails_soft:
  "load_or_create_cache Absent = Inr [] \<and> load_or_create_cache Unreadable = Inr []
   \<and> (exists_file cache_path = Inr b \<and> (\<not> b \<or> (\<exists>e. read_csv cache_path = Inl e)) \<longrightarrow>
        load_or_create_cache cache_path = Inr []
        \<and> (\<forall>cache_df merged.
              load_or_create_cache cache_path = Inr cache_df \<and>
              merge_left combined cache_df = Inr merged \<longrightarrow>
              to_fetch_of merged = map address_for_geocoding combined)
        \<and> after (main api_key xlsx cache_path gmaps p0) = after (main api_key xlsx Absent gmaps p0)
        \<and> (writable cache_path \<longrightarrow>
             ending (main api_key xlsx cache_path gmaps p0)
               = ending (main api_key xlsx Absent gmaps p0)
             \<and> final_de (main api_key xlsx cache_path gmaps p0)
               = final_de (main api_key xlsx Absent gmaps p0)
             \<and> final_at (main api_key xlsx cache_path gmaps p0)
               = final_at (main api_key xlsx Absent gmaps p0)
             \<and> (cache_on_disk (main api_key xlsx cache_path gmaps p0) = cache_path \<or>
                 cache_on_disk (main api_key xlsx cache_path gmaps p0)
                   = cache_on_disk (main api_key xlsx Absent gmaps p0))))"
proof -
  have 1: "load_or_create_cache Absent = Inr []" "load_or_create_cache Unreadable = Inr []"
    by simp_all
  have 2: "load_or_create_cache cache_path = Inr []
        \<and> (\<forall>cache_df merged.
              load_or_create_cache cache_path = Inr cache_df \<and>
              merge_left combined cache_df = Inr merged \<longrightarrow>
              to_fetch_of merged = map address_for_geocoding combined)
        \<and> after (main api_key xlsx cache_path gmaps p0) = after (main api_key xlsx Absent gmaps p0)
        \<and> (writable cache_path \<longrightarrow>
             ending (main api_key xlsx cache_path gmaps p0)
               = ending (main api_key xlsx Absent gmaps p0)
             \<and> final_de (main api_key xlsx cache_path gmaps p0)
               = final_de (main api_key xlsx Absent gmaps p0)
             \<and> final_at (main api_key xlsx cache_path gmaps p0)
               = final_at (main api_key xlsx Absent gmaps p0)
             \<and> (cache_on_disk (main api_key xlsx cache_path gmaps p0) = cache_path \<or>
                 cache_on_disk (main api_key xlsx cache_path gmaps p0)
                   = cache_on_disk (main api_key xlsx Absent gmaps p0)))"
    if f: "exists_file cache_path = Inr b \<and> (\<not> b \<or> (\<exists>e. read_csv cache_path = Inl e))"
  proof -
    have l: "load_or_create_cache cache_path = Inr []"
      using f load_fails_soft by blast
    then have same: "load_or_create_cache cache_path = load_or_create_cache Absent" by simp
    have m: "\<forall>cache_df merged.
              load_or_create_cache cache_path = Inr cache_df \<and>
              merge_left combined cache_df = Inr merged \<longrightarrow>
              to_fetch_of merged = map address_for_geocoding combined"
      unfolding l by (auto simp: merge_left_def to_fetch_empty_cache split: if_splits)
    have wa: "writable Absent" by simp
    have w: "writable cache_path \<longrightarrow>
             ending (main api_key xlsx cache_path gmaps p0)
               = ending (main api_key xlsx Absent gmaps p0)
             \<and> final_de (main api_key xlsx cache_path gmaps p0)
               = final_de (main api_key xlsx Absent gmaps p0)
             \<and> final_at (main api_key xlsx cache_path gmaps p0)
               = final_at (main api_key xlsx Absent gmaps p0)
             \<and> (cache_on_disk (main api_key xlsx cache_path gmaps p0) = cache_path \<or>
                 cache_on_disk (main api_key xlsx cache_path gmaps p0)
                   = cache_on_disk (main api_key xlsx Absent gmaps p0))"
    proof
      assume wc: "writable cache_path"
      show "ending (main api_key xlsx cache_path gmaps p0)
               = ending (main api_key xlsx Absent gmaps p0)
             \<and> final_de (main api_key xlsx cache_path gmaps p0)
               = final_de (main api_key xlsx Absent gmaps p0)
             \<and> final_at (main api_key xlsx cache_path gmaps p0)
               = final_at (main api_key xlsx Absent gmaps p0)
             \<and> (cache_on_disk (main api_key xlsx cache_path gmaps p0) = cache_path \<or>
                 cache_on_disk (main api_key xlsx cache_path gmaps p0)
                   = cache_on_disk (main api_key xlsx Absent gmaps p0))"
        by (intro conjI main_same_cache(2-5)[OF same wc wa])
    qed
    show ?thesis
      by (intro conjI l m main_same_cache(1)[OF same] w)
  qed
  show ?thesis using 1 2 by (intro conjI impI) simp_all
qed

theorem C7_cache_load_fails_soft_witness:
  "exists_file Unreadable = Inr True
   \<and> read_csv Unreadable = Inl (ValueError ''Error tokenizing data'')
   \<and> load_or_create_cache Unreadable = Inr []
   \<and> ending (main (Some ''key'') twin_workbook Unreadable scripted twin_script) = Exit 3
   \<and> final_de (main (Some ''key'') twin_workbook Unreadable scripted twin_script) = None
   \<and> after (main (Some ''key'') twin_workbook Unreadable scripted twin_script)
       = after (main (Some ''key'') twin_workbook Absent scripted twin_script)"
proof -
  have k: "Some ''key'' \<noteq> None" "Some ''key'' \<noteq> Some []" by simp_all
  have f: "exists_file Unreadable = Inr True \<and>
           (\<not> True \<or> (\<exists>e. read_csv Unreadable = Inl e))" by simp
  note loop = fetch_loop_stops_at[OF twin_loop twin_exhausted, of "[]",
      folded to_fetch_twins]
  have absent: "ending (main (Some ''key'') twin_workbook Absent scripted twin_script) = Exit 3"
    "final_de (main (Some ''key'') twin_workbook Absent scripted twin_script) = None"
    using main_rate_limited[OF k parse_twin_workbook load_examples(1) loop]
    by (simp_all add: save_cache_writable)
  show ?thesis
    using C7_cache_load_fails_soft[of Unreadable True "[example_record, twin_record, wien_record]"
            "Some ''key''" twin_workbook scripted twin_script] f absent
    by simp
qed

text \<open>
  Claim C7 as stated fails. On a path whose existence test raises, a name that is too
  long for one, \<open>load_or_create_cache\<close> raises too, the test standing outside the
  \<open>try\<close>, and the run ends there with the exception.
\<close>

theorem C7_existence_test_raises:
  "exists_file Inaccessible = Inl (OSError ''File name too long'')
   \<and> load_or_create_cache Inaccessible = Inl (OSError ''File name too long'')
   \<and> ending (main (Some ''key'') twin_workbook Inaccessible scripted twin_script)
       = Traceback (OSError ''File name too long'')
   \<and> trace (after (main (Some ''key'') twin_workbook Inaccessible scripted twin_script)) = []"
  by (simp add: load_or_create_cache_def main_def Let_def)

end
